theory Spec2Isabelle
  imports Complex_Main "HOL-Library.AList"
begin

section \<open>Python values\<close>

text \<open>
  The schema and the candidate both come out of \<open>json.loads\<close>, so every value is a JSON
  value as Python holds it: \<open>None\<close>, a bool, an unbounded int, a float, a str, a list or
  a dict. A Python float is modelled as an extended real: a finite float is the real it
  denotes (rounding to 53 bits is not modelled), next to \<open>inf\<close>, \<open>-inf\<close> and \<open>nan\<close>. A str
  is a list of characters with code points below 256; a text with a character beyond
  that range is not a value of the model.
\<close>

datatype pyfloat = Fin real | PInf | NInf | NaN

datatype pyval =
    PNone
  | PBool bool
  | PInt int
  | PFloat pyfloat
  | PStr string
  | PList "pyval list"
  | PDict "(string \<times> pyval) list"

text \<open>A Python dict: an association list in insertion order, whose keys are distinct.\<close>

type_synonym 'v dict = "(string \<times> 'v) list"

text \<open>The exceptions the builtin conversions raise.\<close>

datatype error = TypeError | ValueError | OverflowError | ZeroDivisionError | AttributeError

subsection \<open>Comparison of floats, \<open>min\<close> and \<open>max\<close>\<close>

text \<open>\<open>a < b\<close> on floats: false as soon as one side is \<open>nan\<close>.\<close>

fun flt_less :: "pyfloat \<Rightarrow> pyfloat \<Rightarrow> bool" where
  "flt_less (Fin a) (Fin b) = (a < b)"
| "flt_less (Fin a) PInf = True"
| "flt_less NInf (Fin b) = True"
| "flt_less NInf PInf = True"
| "flt_less _ _ = False"

text \<open>
  The builtin \<open>max(a, b)\<close> keeps \<open>a\<close> unless \<open>b > a\<close>, and \<open>min(a, b)\<close> keeps \<open>a\<close>
  unless \<open>b < a\<close>.
\<close>

definition py_max :: "pyfloat \<Rightarrow> pyfloat \<Rightarrow> pyfloat" where
  "py_max a b = (if flt_less a b then b else a)"

definition py_min :: "pyfloat \<Rightarrow> pyfloat \<Rightarrow> pyfloat" where
  "py_min a b = (if flt_less b a then b else a)"

subsection \<open>Strings\<close>

text \<open>
  White space as \<open>str.strip()\<close> takes it (\<open>str.isspace\<close>): the characters 9 to 13, the
  separators 28 to 31, the space, and 133 and 160.
\<close>

definition is_space :: "char \<Rightarrow> bool" where
  "is_space c = (let n = (of_char c :: nat)
                 in (9 \<le> n \<and> n \<le> 13) \<or> (28 \<le> n \<and> n \<le> 32) \<or> n = 133 \<or> n = 160)"

text \<open>
  White space as \<open>float()\<close> and \<open>int()\<close> skip it around a numeral: the same characters
  without the separators 28 to 31, which make the conversion fail.
\<close>

definition is_num_space :: "char \<Rightarrow> bool" where
  "is_num_space c = (let n = (of_char c :: nat)
                     in (9 \<le> n \<and> n \<le> 13) \<or> n = 32 \<or> n = 133 \<or> n = 160)"

definition strip_with :: "(char \<Rightarrow> bool) \<Rightarrow> string \<Rightarrow> string" where
  "strip_with sp s = rev (dropWhile sp (rev (dropWhile sp s)))"

definition strip :: "string \<Rightarrow> string" where
  "strip s = strip_with is_space s"

text \<open>\<open>str.lower()\<close>: the letters A to Z, and the capital letters 192 to 222 except 215.\<close>

definition lower_char :: "char \<Rightarrow> char" where
  "lower_char c = (let n = (of_char c :: nat)
                   in if (65 \<le> n \<and> n \<le> 90) \<or> (192 \<le> n \<and> n \<le> 222 \<and> n \<noteq> 215)
                      then char_of (n + 32) else c)"

definition lower :: "string \<Rightarrow> string" where
  "lower s = map lower_char s"

definition is_digit :: "char \<Rightarrow> bool" where
  "is_digit c = (let n = (of_char c :: nat) in 48 \<le> n \<and> n \<le> 57)"

definition digit_val :: "char \<Rightarrow> nat" where
  "digit_val c = of_char c - 48"

text \<open>A digit part of a numeric literal: digits, with single underscores between them.\<close>

fun digitpart_ok :: "string \<Rightarrow> bool" where
  "digitpart_ok [] = False"
| "digitpart_ok [c] = is_digit c"
| "digitpart_ok (c # d # cs) =
     (is_digit c \<and> (if d = CHR ''_'' then digitpart_ok cs else digitpart_ok (d # cs)))"

definition dec_value :: "string \<Rightarrow> nat" where
  "dec_value s = foldl (\<lambda>a c. if is_digit c then 10 * a + digit_val c else a) 0 s"

definition digit_or_us :: "char \<Rightarrow> bool" where
  "digit_or_us c = (is_digit c \<or> c = CHR ''_'')"

text \<open>An optional sign: the factor and the rest of the text.\<close>

fun take_sign :: "string \<Rightarrow> int \<times> string" where
  "take_sign [] = (1, [])"
| "take_sign (c # cs) =
     (if c = CHR ''-'' then (- 1, cs) else if c = CHR ''+'' then (1, cs) else (1, c # cs))"

subsection \<open>The conversions \<open>float\<close>, \<open>int\<close> and \<open>round\<close>\<close>

text \<open>
  A real of magnitude \<open>2^1024 - 2^970\<close> or more has no finite float: a string of that
  size converts to an infinity, an int of that size raises \<open>OverflowError\<close>.
\<close>

definition float_limit :: real where
  "float_limit = 2 ^ 1024 - 2 ^ 970"

definition scale10 :: "nat \<Rightarrow> int \<Rightarrow> real" where
  "scale10 m e = (if 0 \<le> e then real m * 10 ^ nat e else real m / 10 ^ nat (- e))"

text \<open>The exponent of a float literal: empty, or \<open>e\<close> or \<open>E\<close>, a sign and a digit part.\<close>

fun parse_exponent :: "string \<Rightarrow> int option" where
  "parse_exponent [] = Some 0"
| "parse_exponent (c # cs) =
     (if c = CHR ''e'' \<or> c = CHR ''E''
      then (case take_sign cs of (sg, ds) \<Rightarrow>
              if digitpart_ok ds then Some (sg * int (dec_value ds)) else None)
      else None)"

text \<open>An unsigned decimal literal: digits, an optional fraction, an optional exponent.\<close>

definition parse_decimal :: "string \<Rightarrow> real option" where
  "parse_decimal s =
     (let ip = takeWhile digit_or_us s;
          r1 = dropWhile digit_or_us s;
          fp = (case r1 of [] \<Rightarrow> [] | c # t \<Rightarrow> if c = CHR ''.'' then takeWhile digit_or_us t else []);
          r2 = (case r1 of [] \<Rightarrow> [] | c # t \<Rightarrow> if c = CHR ''.'' then dropWhile digit_or_us t else r1)
      in if (ip = [] \<or> digitpart_ok ip) \<and> (fp = [] \<or> digitpart_ok fp) \<and> (ip \<noteq> [] \<or> fp \<noteq> [])
         then (case parse_exponent r2 of
                 None \<Rightarrow> None
               | Some e \<Rightarrow> Some (scale10 (dec_value (ip @ fp)) (e - int (length (filter is_digit fp)))))
         else None)"

text \<open>\<open>float(s)\<close> for a str: \<open>None\<close> stands for \<open>ValueError\<close>.\<close>

definition float_of_string :: "string \<Rightarrow> pyfloat option" where
  "float_of_string s =
     (case take_sign (strip_with is_num_space s) of (sg, body) \<Rightarrow>
        if lower body = ''inf'' \<or> lower body = ''infinity'' then Some (if sg < 0 then NInf else PInf)
        else if lower body = ''nan'' then Some NaN
        else (case parse_decimal body of
                None \<Rightarrow> None
              | Some v \<Rightarrow> Some (if float_limit \<le> v then (if sg < 0 then NInf else PInf)
                                else Fin (real_of_int sg * v))))"

fun py_float :: "pyval \<Rightarrow> error + pyfloat" where
  "py_float PNone = Inl TypeError"
| "py_float (PBool b) = Inr (Fin (if b then 1 else 0))"
| "py_float (PInt n) = (if float_limit \<le> \<bar>real_of_int n\<bar> then Inl OverflowError else Inr (Fin (real_of_int n)))"
| "py_float (PFloat f) = Inr f"
| "py_float (PStr s) = (case float_of_string s of None \<Rightarrow> Inl ValueError | Some f \<Rightarrow> Inr f)"
| "py_float (PList xs) = Inl TypeError"
| "py_float (PDict d) = Inl TypeError"

text \<open>
  \<open>int(s)\<close> for a str: an optional sign and a digit part of at most 4300 digits, the limit
  of the interpreter on the conversion of a str to an int.
\<close>

definition int_of_string :: "string \<Rightarrow> int option" where
  "int_of_string s =
     (case take_sign (strip_with is_num_space s) of (sg, ds) \<Rightarrow>
        if digitpart_ok ds \<and> length (filter is_digit ds) \<le> 4300
        then Some (sg * int (dec_value ds)) else None)"

definition trunc :: "real \<Rightarrow> int" where
  "trunc r = (if 0 \<le> r then \<lfloor>r\<rfloor> else \<lceil>r\<rceil>)"

fun py_int :: "pyval \<Rightarrow> error + int" where
  "py_int PNone = Inl TypeError"
| "py_int (PBool b) = Inr (if b then 1 else 0)"
| "py_int (PInt n) = Inr n"
| "py_int (PFloat (Fin r)) = Inr (trunc r)"
| "py_int (PFloat NaN) = Inl ValueError"
| "py_int (PFloat f) = Inl OverflowError"
| "py_int (PStr s) = (case int_of_string s of None \<Rightarrow> Inl ValueError | Some n \<Rightarrow> Inr n)"
| "py_int (PList xs) = Inl TypeError"
| "py_int (PDict d) = Inl TypeError"

text \<open>\<open>round(x)\<close> of a float, to the nearest int, a tie going to the even neighbour.\<close>

definition round_half_even :: "real \<Rightarrow> int" where
  "round_half_even r =
     (let f = \<lfloor>r\<rfloor>; d = r - real_of_int f
      in if d < 1 / 2 then f else if 1 / 2 < d then f + 1 else if even f then f else f + 1)"

fun py_round :: "pyfloat \<Rightarrow> error + int" where
  "py_round (Fin r) = Inr (round_half_even r)"
| "py_round NaN = Inl ValueError"
| "py_round f = Inl OverflowError"

subsection \<open>Equality \<open>==\<close>\<close>

text \<open>
  Bools, ints and floats compare by their numeric value, and \<open>nan\<close> equals nothing.
  Values of other types equal only values of their own type. Two containers are compared
  structurally: the source compares a list or a dict only with a number, a bool or the
  very same object.
\<close>

fun as_number :: "pyval \<Rightarrow> pyfloat option" where
  "as_number (PBool b) = Some (Fin (if b then 1 else 0))"
| "as_number (PInt n) = Some (Fin (real_of_int n))"
| "as_number (PFloat f) = Some f"
| "as_number _ = None"

definition py_eq :: "pyval \<Rightarrow> pyval \<Rightarrow> bool" where
  "py_eq a b =
     (case (as_number a, as_number b) of
        (Some x, Some y) \<Rightarrow> x \<noteq> NaN \<and> x = y
      | (None, None) \<Rightarrow> a = b
      | _ \<Rightarrow> False)"

section \<open>Validation helpers\<close>

text \<open>\<open>d.get(k, dflt)\<close>.\<close>

definition dict_get :: "'v dict \<Rightarrow> string \<Rightarrow> 'v \<Rightarrow> 'v" where
  "dict_get d k dflt = (case map_of d k of None \<Rightarrow> dflt | Some v \<Rightarrow> v)"

text \<open>
  \<open>str(value).lower() in ("true", "1", "yes", "on")\<close> for a value that is not a bool.
  The text of an int is its decimal numeral, which is \<open>1\<close> only for the int 1; the text of
  a float always holds a point, an exponent, \<open>inf\<close> or \<open>nan\<close>; the text of \<open>None\<close> is
  \<open>None\<close>; the text of a list or a dict starts with a bracket.
\<close>

fun str_is_truthy :: "pyval \<Rightarrow> bool" where
  "str_is_truthy (PStr s) = (lower s \<in> set [''true'', ''1'', ''yes'', ''on''])"
| "str_is_truthy (PInt n) = (n = 1)"
| "str_is_truthy (PBool b) = b"
| "str_is_truthy _ = False"

text \<open>
  \<open>clip_value(value, spec)\<close>. The \<open>except Exception\<close> of the source catches whatever the
  conversion of the value raises; the conversions of the default and of the bounds are
  outside any \<open>try\<close>, and what they raise leaves the function.
\<close>

definition clip_float :: "pyval \<Rightarrow> pyval dict \<Rightarrow> error + pyval" where
  "clip_float v spec =
     (case (case py_float v of
              Inr x \<Rightarrow> Inr x
            | Inl _ \<Rightarrow> py_float (dict_get spec ''default'' (PFloat (Fin 0)))) of
        Inl e \<Rightarrow> Inl e
      | Inr x \<Rightarrow>
         (case py_float (dict_get spec ''min'' (PFloat x)) of
            Inl e \<Rightarrow> Inl e
          | Inr lo \<Rightarrow>
             (case py_float (dict_get spec ''max'' (PFloat x)) of
                Inl e \<Rightarrow> Inl e
              | Inr hi \<Rightarrow> Inr (PFloat (py_min (py_max x lo) hi)))))"

definition clip_integer :: "pyval \<Rightarrow> pyval dict \<Rightarrow> error + pyval" where
  "clip_integer v spec =
     (case (case (case py_float v of Inl e \<Rightarrow> Inl e | Inr f \<Rightarrow> py_round f) of
              Inr x \<Rightarrow> Inr x
            | Inl _ \<Rightarrow> py_int (dict_get spec ''default'' (PInt 0))) of
        Inl e \<Rightarrow> Inl e
      | Inr x \<Rightarrow>
         (case py_int (dict_get spec ''min'' (PInt x)) of
            Inl e \<Rightarrow> Inl e
          | Inr lo \<Rightarrow>
             (case py_int (dict_get spec ''max'' (PInt x)) of
                Inl e \<Rightarrow> Inl e
              | Inr hi \<Rightarrow> Inr (PInt (min (max x lo) hi)))))"

definition clip_bool :: "pyval \<Rightarrow> pyval" where
  "clip_bool v = (case v of PBool b \<Rightarrow> PBool b | _ \<Rightarrow> PBool (str_is_truthy v))"

definition clip_value :: "pyval \<Rightarrow> pyval dict \<Rightarrow> error + pyval" where
  "clip_value v spec =
     (let t = map_of spec ''type''
      in if t = Some (PStr ''float'') then clip_float v spec
         else if t = Some (PStr ''integer'') then clip_integer v spec
         else if t = Some (PStr ''bool'') then Inr (clip_bool v)
         else Inr v)"

text \<open>
  \<open>validate_and_clip(params, schema)\<close>: the state of the first loop is the three dicts
  \<open>out\<close>, \<open>clipped\<close> and \<open>violations\<close>; the second loop runs over the keys of \<open>params\<close>.
\<close>

type_synonym vstate = "pyval dict \<times> pyval dict dict \<times> string dict"

fun schema_loop :: "pyval dict \<Rightarrow> pyval dict dict \<Rightarrow> vstate \<Rightarrow> error + vstate" where
  "schema_loop params [] st = Inr st"
| "schema_loop params ((k, spec) # rest) (out, clipped, violations) =
     (case map_of params k of
        None \<Rightarrow>
          schema_loop params rest
            (AList.update k (dict_get spec ''default'' PNone) out, clipped,
             AList.update k ''missing->default'' violations)
      | Some v_in \<Rightarrow>
          (case clip_value v_in spec of
             Inl e \<Rightarrow> Inl e
           | Inr v \<Rightarrow>
               schema_loop params rest
                 (AList.update k v out,
                  (if \<not> py_eq v v_in
                   then AList.update k [(''in'', v_in), (''out'', v)] clipped else clipped),
                  violations)))"

fun params_loop :: "string list \<Rightarrow> pyval dict dict \<Rightarrow> string dict \<Rightarrow> string dict" where
  "params_loop [] schema violations = violations"
| "params_loop (k # ks) schema violations =
     params_loop ks schema
       (if map_of schema k = None then AList.update k ''unknown-key->dropped'' violations
        else violations)"

definition validate_and_clip :: "pyval dict \<Rightarrow> pyval dict dict \<Rightarrow> error + vstate" where
  "validate_and_clip params schema =
     (case schema_loop params schema ([], [], []) of
        Inl e \<Rightarrow> Inl e
      | Inr (out, clipped, violations) \<Rightarrow>
          Inr (out, clipped, params_loop (map fst params) schema violations))"

subsection \<open>Schemas on which no conversion raises\<close>


text \<open>
  What the first loop stores for a key: the default as it stands when the candidate lacks
  the key, the result of \<open>clip_value\<close> otherwise.
\<close>

definition out_value :: "pyval dict \<Rightarrow> string \<Rightarrow> pyval dict \<Rightarrow> error + pyval" where
  "out_value params k spec =
     (case map_of params k of
        None \<Rightarrow> Inr (dict_get spec ''default'' PNone)
      | Some v \<Rightarrow> clip_value v spec)"

definition out_entry :: "pyval dict \<Rightarrow> string \<times> pyval dict \<Rightarrow> string \<times> pyval \<Rightarrow> bool" where
  "out_entry params e r = (fst r = fst e \<and> out_value params (fst e) (snd e) = Inr (snd r))"

subsection \<open>Example schemas\<close>

definition schema_x :: "pyval dict dict" where
  "schema_x = [(''x'', [(''type'', PStr ''float''), (''min'', PInt 0), (''max'', PInt 10),
                        (''default'', PInt 5)])]"

definition schema_x_far :: "pyval dict dict" where
  "schema_x_far = [(''x'', [(''type'', PStr ''float''), (''min'', PInt 0), (''max'', PInt 10),
                            (''default'', PInt 20)])]"

definition schema_flag :: "pyval dict dict" where
  "schema_flag = [(''flag'', [(''type'', PStr ''bool''), (''default'', PBool False)])]"


subsection \<open>Schemas that conform to the data model\<close>








subsection \<open>Further example schemas and projections of the result\<close>



definition params_of :: "error + vstate \<Rightarrow> pyval dict" where
  "params_of r = (case r of Inl e \<Rightarrow> [] | Inr (out, clipped, violations) \<Rightarrow> out)"

definition clipped_of :: "error + vstate \<Rightarrow> pyval dict dict" where
  "clipped_of r = (case r of Inl e \<Rightarrow> [] | Inr (out, clipped, violations) \<Rightarrow> clipped)"

text \<open>\<open>a <= b\<close> on floats.\<close>

definition flt_le :: "pyfloat \<Rightarrow> pyfloat \<Rightarrow> bool" where
  "flt_le a b = (flt_less a b \<or> (a \<noteq> NaN \<and> a = b))"

subsection \<open>Float arithmetic\<close>

text \<open>A finite result beyond the float range is an infinity.\<close>

definition to_range :: "real \<Rightarrow> pyfloat" where
  "to_range r = (if float_limit \<le> r then PInf else if r \<le> - float_limit then NInf else Fin r)"

fun pf_neg :: "pyfloat \<Rightarrow> pyfloat" where
  "pf_neg (Fin a) = Fin (- a)"
| "pf_neg PInf = NInf"
| "pf_neg NInf = PInf"
| "pf_neg NaN = NaN"

fun pf_abs :: "pyfloat \<Rightarrow> pyfloat" where
  "pf_abs (Fin a) = Fin \<bar>a\<bar>"
| "pf_abs NaN = NaN"
| "pf_abs _ = PInf"

fun pf_add :: "pyfloat \<Rightarrow> pyfloat \<Rightarrow> pyfloat" where
  "pf_add (Fin a) (Fin b) = to_range (a + b)"
| "pf_add NaN _ = NaN"
| "pf_add _ NaN = NaN"
| "pf_add PInf NInf = NaN"
| "pf_add NInf PInf = NaN"
| "pf_add PInf _ = PInf"
| "pf_add NInf _ = NInf"
| "pf_add (Fin a) b = b"

definition pf_sub :: "pyfloat \<Rightarrow> pyfloat \<Rightarrow> pyfloat" where
  "pf_sub a b = pf_add a (pf_neg b)"

text \<open>The sign of a float that is not \<open>nan\<close>: negative or not.\<close>

fun is_neg :: "pyfloat \<Rightarrow> bool" where
  "is_neg (Fin a) = (a < 0)"
| "is_neg NInf = True"
| "is_neg _ = False"

fun pf_mul :: "pyfloat \<Rightarrow> pyfloat \<Rightarrow> pyfloat" where
  "pf_mul (Fin a) (Fin b) = to_range (a * b)"
| "pf_mul NaN _ = NaN"
| "pf_mul _ NaN = NaN"
| "pf_mul a b =
     (if a = Fin 0 \<or> b = Fin 0 then NaN else if is_neg a = is_neg b then PInf else NInf)"

fun pf_div :: "pyfloat \<Rightarrow> pyfloat \<Rightarrow> error + pyfloat" where
  "pf_div a (Fin b) =
     (if b = 0 then Inl ZeroDivisionError
      else case a of
             Fin x \<Rightarrow> Inr (to_range (x / b))
           | NaN \<Rightarrow> Inr NaN
           | _ \<Rightarrow> Inr (if is_neg a = (b < 0) then PInf else NInf))"
| "pf_div NaN _ = Inr NaN"
| "pf_div _ NaN = Inr NaN"
| "pf_div (Fin x) _ = Inr (Fin 0)"
| "pf_div _ _ = Inr NaN"

section \<open>Confidence\<close>

text \<open>
  A number as Python holds it in arithmetic: an int (a bool is an int, \<open>True\<close> being 1) or
  a float. \<open>isinstance(v, (int, float))\<close> holds of bools, ints and floats.
\<close>

datatype num = I int | F pyfloat

fun num_of :: "pyval \<Rightarrow> num option" where
  "num_of (PBool b) = Some (I (if b then 1 else 0))"
| "num_of (PInt n) = Some (I n)"
| "num_of (PFloat f) = Some (F f)"
| "num_of _ = None"

fun is_bool :: "pyval \<Rightarrow> bool" where
  "is_bool (PBool b) = True"
| "is_bool _ = False"

fun num_float :: "num \<Rightarrow> error + pyfloat" where
  "num_float (I n) = py_float (PInt n)"
| "num_float (F f) = Inr f"

text \<open>\<open>abs(v - d)\<close>: exact on two ints, float arithmetic as soon as one side is a float.\<close>

fun abs_diff :: "num \<Rightarrow> num \<Rightarrow> error + num" where
  "abs_diff (I a) (I b) = Inr (I \<bar>a - b\<bar>)"
| "abs_diff v d =
     (case num_float v of
        Inl e \<Rightarrow> Inl e
      | Inr x \<Rightarrow> (case num_float d of
                   Inl e \<Rightarrow> Inl e
                 | Inr y \<Rightarrow> Inr (F (pf_abs (pf_sub x y)))))"

fun num_abs :: "num \<Rightarrow> num" where
  "num_abs (I a) = I \<bar>a\<bar>"
| "num_abs (F f) = F (pf_abs f)"

definition eps :: real where
  "eps = 1 / 10 ^ 9"

text \<open>\<open>min(1.0, abs(v-d)/(rng+eps))\<close> with \<open>rng = abs(d) + 1.0\<close>.\<close>

definition numeric_diff :: "num \<Rightarrow> num \<Rightarrow> error + pyfloat" where
  "numeric_diff v d =
     (case num_float (num_abs d) of
        Inl e \<Rightarrow> Inl e
      | Inr ad \<Rightarrow>
          (let rng = pf_add ad (Fin 1)
           in case abs_diff v d of
                Inl e \<Rightarrow> Inl e
              | Inr n \<Rightarrow>
                 (case num_float n of
                    Inl e \<Rightarrow> Inl e
                  | Inr x \<Rightarrow>
                     (case pf_div x (pf_add rng (Fin eps)) of
                        Inl e \<Rightarrow> Inl e
                      | Inr q \<Rightarrow> Inr (py_min (Fin 1) q)))))"

text \<open>
  The body of the loop for one key: the difference appended to the list of differences
  (\<open>dfs\<close> below), or nothing. The numeric test comes first, as in the source, and it
  holds of two bools.
\<close>

definition key_diff :: "pyval \<Rightarrow> pyval \<Rightarrow> (error + pyfloat) option" where
  "key_diff v d =
     (case (num_of v, num_of d) of
        (Some nv, Some nd) \<Rightarrow> Some (numeric_diff nv nd)
      | _ \<Rightarrow>
         if is_bool v \<and> is_bool d then Some (Inr (Fin (if v \<noteq> d then 3 / 10 else 0)))
         else None)"

fun diffs_loop :: "string list \<Rightarrow> pyval dict \<Rightarrow> pyval dict \<Rightarrow> pyfloat list \<Rightarrow> error + pyfloat list" where
  "diffs_loop [] validated defaults dfs = Inr dfs"
| "diffs_loop (k # ks) validated defaults dfs =
     (case (map_of validated k, map_of defaults k) of
        (Some v, Some d) \<Rightarrow>
          (case key_diff v d of
             None \<Rightarrow> diffs_loop ks validated defaults dfs
           | Some (Inl e) \<Rightarrow> Inl e
           | Some (Inr x) \<Rightarrow> diffs_loop ks validated defaults (dfs @ [x]))
      | _ \<Rightarrow> diffs_loop ks validated defaults dfs)"

definition confidence_score :: "pyval dict \<Rightarrow> pyval dict \<Rightarrow> 'c dict \<Rightarrow> error + pyfloat" where
  "confidence_score validated defaults clipped =
     (let keys = filter (\<lambda>k. map_of defaults k \<noteq> None) (map fst validated)
      in if keys = [] then Inr (Fin 0)
         else case diffs_loop keys validated defaults [] of
                Inl e \<Rightarrow> Inl e
              | Inr dfs \<Rightarrow>
                 (case pf_div (foldl pf_add (Fin 0) dfs) (Fin (real (max 1 (length dfs)))) of
                    Inl e \<Rightarrow> Inl e
                  | Inr base \<Rightarrow>
                     (let clip_penalty =
                            py_min (Fin (1 / 2))
                              (Fin (real (length clipped) / real (max 1 (length validated))))
                      in Inr (py_max (Fin 0)
                                (py_min (Fin 1) (pf_mul base (pf_sub (Fin 1) clip_penalty)))))))"

definition defaults_from_schema :: "pyval dict dict \<Rightarrow> pyval dict" where
  "defaults_from_schema schema = map (\<lambda>(k, v). (k, dict_get v ''default'' PNone)) schema"

section \<open>Grammar\<close>

definition dq :: char where "dq = CHR 0x22"
definition bsl :: char where "bsl = CHR 0x5C"
definition nl :: string where "nl = [CHR 0x0A]"

text \<open>\<open>sep.join(xs)\<close>.\<close>

fun join :: "string \<Rightarrow> string list \<Rightarrow> string" where
  "join sep [] = []"
| "join sep [x] = x"
| "join sep (x # y # ys) = x @ sep @ join sep (y # ys)"

text \<open>Order of two strings: by code point, position by position.\<close>

fun str_less :: "string \<Rightarrow> string \<Rightarrow> bool" where
  "str_less [] [] = False"
| "str_less [] (y # ys) = True"
| "str_less (x # xs) [] = False"
| "str_less (x # xs) (y # ys) =
     ((of_char x :: nat) < of_char y \<or> (x = y \<and> str_less xs ys))"

text \<open>\<open>list.sort()\<close> on strings: stable, an element goes behind the elements not above it.\<close>

fun insert_sorted :: "string \<Rightarrow> string list \<Rightarrow> string list" where
  "insert_sorted x [] = [x]"
| "insert_sorted x (y # ys) = (if str_less x y then x # y # ys else y # insert_sorted x ys)"

definition sort_keys :: "string list \<Rightarrow> string list" where
  "sort_keys xs = foldl (\<lambda>acc x. insert_sorted x acc) [] xs"

text \<open>
  \<open>json.dumps(s)\<close> of a str: quotes around the text, in which the quote, the backslash and
  every character outside the printable ASCII range are escaped.
\<close>

definition hex_digit :: "nat \<Rightarrow> char" where
  "hex_digit n = (if n < 10 then char_of (48 + n) else char_of (87 + n))"

definition json_escape :: "char \<Rightarrow> string" where
  "json_escape c =
     (let n = (of_char c :: nat)
      in if c = dq then [bsl, dq]
         else if c = bsl then [bsl, bsl]
         else if n = 10 then [bsl, CHR ''n'']
         else if n = 13 then [bsl, CHR ''r'']
         else if n = 9 then [bsl, CHR ''t'']
         else if n = 8 then [bsl, CHR ''b'']
         else if n = 12 then [bsl, CHR ''f'']
         else if n < 32 \<or> 126 < n
              then [bsl, CHR ''u'', CHR ''0'', CHR ''0'', hex_digit (n div 16), hex_digit (n mod 16)]
         else [c])"

definition json_dumps_str :: "string \<Rightarrow> string" where
  "json_dumps_str s = dq # concat (map json_escape s) @ [dq]"

definition alts :: "string list \<Rightarrow> string" where
  "alts xs = join '' | '' (map json_dumps_str xs)"

definition boolean_def :: string where
  \<open>boolean_def = join nl
     [''boolean ::= "true" | "false"'',
      ''number  ::= integer frac? exp?'',
      ''integer ::= "-"? ("0" | [1-9] [0-9]*)'',
      ''frac    ::= "." [0-9]+'',
      ''exp     ::= ("e" | "E") ("+" | "-")? [0-9]+'',
      ''ws ::= ([ '' @ [bsl] @ ''t'' @ [bsl] @ ''n'' @ [bsl] @ ''r] | comment)*'',
      ''comment ::= "/*" ([^*] | "*"+ [^*/])* "*"+ "/"'',
      '''']\<close>

definition number_keys :: "pyval dict dict \<Rightarrow> string list" where
  "number_keys schema =
     sort_keys (map fst (filter (\<lambda>(k, s). map_of s ''type'' = Some (PStr ''float'') \<or>
                                         map_of s ''type'' = Some (PStr ''integer'')) schema))"

definition bool_keys :: "pyval dict dict \<Rightarrow> string list" where
  "bool_keys schema =
     sort_keys (map fst (filter (\<lambda>(k, s). map_of s ''type'' = Some (PStr ''bool'')) schema))"

definition gbnf_for_schema :: "pyval dict dict \<Rightarrow> string" where
  \<open>gbnf_for_schema schema =
     (if number_keys schema \<noteq> [] \<and> bool_keys schema \<noteq> []
      then join nl
             [''root ::= ws "{" ws members? ws "}" ws'',
              ''members ::= pair (ws "," ws pair)*'',
              ''pair ::= number_pair | bool_pair'',
              ''number_pair ::= number_key ws ":" ws number'',
              ''number_key ::= '' @ alts (number_keys schema),
              ''bool_pair ::= bool_key ws ":" ws boolean'',
              ''bool_key ::= '' @ alts (bool_keys schema),
              '''',
              boolean_def]
      else if number_keys schema \<noteq> []
      then join nl
             [''root ::= ws "{" ws members? ws "}" ws'',
              ''members ::= number_pair (ws "," ws number_pair)*'',
              ''number_pair ::= number_key ws ":" ws number'',
              ''number_key ::= '' @ alts (number_keys schema),
              '''',
              boolean_def]
      else join nl [''root ::= ws "{" ws "}" ws'', '''', boolean_def])\<close>

definition schema_mixed :: "pyval dict dict" where
  "schema_mixed =
     [(''y'', [(''type'', PStr ''integer''), (''min'', PInt 1), (''max'', PInt 5), (''default'', PInt 3)]),
      (''flag'', [(''type'', PStr ''bool''), (''default'', PBool False)]),
      (''x'', [(''type'', PStr ''float''), (''min'', PInt 0), (''max'', PInt 10), (''default'', PInt 5)])]"

section \<open>Extraction of the JSON text\<close>

text \<open>
  \<open>re.search(r"\{.*\}", raw, flags=re.S)\<close>: the match starts at the first opening brace
  that a closing brace follows, which can only be the first opening brace of the text, and
  the greedy \<open>.*\<close> carries it to the last closing brace.
\<close>

definition brace_match :: "string \<Rightarrow> string option" where
  "brace_match raw =
     (case dropWhile (\<lambda>c. c \<noteq> CHR ''{'') raw of
        [] \<Rightarrow> None
      | c # t \<Rightarrow>
          if CHR ''}'' \<in> set t
          then Some (c # rev (dropWhile (\<lambda>c. c \<noteq> CHR ''}'') (rev t)))
          else None)"

definition json_text :: "string \<Rightarrow> string" where
  "json_text raw = (case brace_match raw of Some m \<Rightarrow> m | None \<Rightarrow> raw)"

text \<open>
  The spec's wording, for comparison: the first balanced span. \<open>close_at d s\<close> is the
  prefix of \<open>s\<close> up to the brace that closes \<open>d\<close> open ones.
\<close>

fun close_at :: "nat \<Rightarrow> string \<Rightarrow> string option" where
  "close_at d [] = None"
| "close_at d (c # cs) =
     (if c = CHR ''{'' then map_option (Cons c) (close_at (Suc d) cs)
      else if c = CHR ''}''
           then (if d \<le> 1 then Some [c] else map_option (Cons c) (close_at (d - 1) cs))
      else map_option (Cons c) (close_at d cs))"

fun spec_first_balanced_span :: "string \<Rightarrow> string option" where
  "spec_first_balanced_span [] = None"
| "spec_first_balanced_span (c # cs) =
     (if c = CHR ''{''
      then (case close_at 1 cs of
              Some m \<Rightarrow> Some (c # m)
            | None \<Rightarrow> spec_first_balanced_span cs)
      else spec_first_balanced_span cs)"

definition spec_json_text :: "string \<Rightarrow> string" where
  "spec_json_text raw = (case spec_first_balanced_span raw of Some m \<Rightarrow> m | None \<Rightarrow> raw)"

section \<open>Inference calls\<close>

text \<open>
  The two entry points are modelled with their environment made explicit: the file system,
  the engine library, the completion function, the JSON parser and the worker process are
  fields of a record, and each function returns, next to its result, the list of effects
  it had on them, in order. Wall-clock time (the field \<open>elapsed\<close>), the text of the prompt
  and the lock around the model are not modelled; the call is taken to hold the lock alone.
\<close>

record exn =
  ename :: string
  emsg :: string

text \<open>
  A value of the violation report: a literal tag of the source, the text of an exception
  (\<open>type name: message\<close>), the exception of a builtin conversion (its message is not
  modelled), or one of these behind a prefix.
\<close>

datatype reason = Tag string | Exception exn | Builtin error | Prefixed string reason

datatype report = Report "reason dict" | FromWorker pyval

record inference_result =
  res_ok :: bool
  res_params :: "pyval dict option"
  res_confidence :: pyfloat
  res_raw :: "string option"
  res_clipped :: "pyval dict dict option"
  res_violations :: "report option"
  res_model :: string

record call =
  temperature :: real
  with_grammar :: bool
  with_abort :: bool

datatype event =
    LoadModel string
  | ChatCompletion call
  | WriteWorkerScript
  | MakeTmpDir
  | WriteArgsFile
  | SpawnWorker
  | TerminateWorker
  | KillWorker
  | ReadWorkerOutput
  | JsonLoads string
  | RemoveArgsFile

text \<open>The texts handed to \<open>json.loads\<close>, in order.\<close>

fun parsed_texts :: "event list \<Rightarrow> string list" where
  "parsed_texts [] = []"
| "parsed_texts (JsonLoads t # es) = t # parsed_texts es"
| "parsed_texts (e # es) = parsed_texts es"

text \<open>The result of every failure: \<open>ok\<close> false, nothing but the violation report.\<close>

definition failed :: "reason dict \<Rightarrow> string \<Rightarrow> inference_result" where
  "failed vio m =
     \<lparr>res_ok = False, res_params = None, res_confidence = Fin 0, res_raw = None,
      res_clipped = None, res_violations = Some (Report vio), res_model = m\<rparr>"

definition canceled :: "string \<Rightarrow> inference_result" where
  "canceled m = failed [(''error'', Tag ''canceled'')] m"

text \<open>\<open>os.path.basename\<close>, for paths with the separator \<open>/\<close>.\<close>

definition basename :: "string \<Rightarrow> string" where
  "basename p = rev (takeWhile (\<lambda>c. c \<noteq> CHR ''/'') (rev p))"

text \<open>
  The cancellation event, when there is one, answers \<open>is_set()\<close> each time it is asked; the
  argument counts the questions of the call. An event set before the call answers yes to
  the first one.
\<close>

definition is_set :: "(nat \<Rightarrow> bool) option \<Rightarrow> nat \<Rightarrow> bool" where
  "is_set cancel_event n = (case cancel_event of None \<Rightarrow> False | Some f \<Rightarrow> f n)"

fun starts_with :: "string \<Rightarrow> string \<Rightarrow> bool" where
  "starts_with [] s = True"
| "starts_with (p # ps) [] = False"
| "starts_with (p # ps) (c # cs) = (p = c \<and> starts_with ps cs)"

text \<open>\<open>p in s\<close> on strings.\<close>

fun contains :: "string \<Rightarrow> string \<Rightarrow> bool" where
  "contains p [] = (p = [])"
| "contains p (c # cs) = (starts_with p (c # cs) \<or> contains p cs)"

text \<open>Truth of a value, as \<open>or\<close> and \<open>if\<close> take it.\<close>

fun truthy :: "pyval \<Rightarrow> bool" where
  "truthy PNone = False"
| "truthy (PBool b) = b"
| "truthy (PInt n) = (n \<noteq> 0)"
| "truthy (PFloat f) = (f \<noteq> Fin 0)"
| "truthy (PStr s) = (s \<noteq> [])"
| "truthy (PList xs) = (xs \<noteq> [])"
| "truthy (PDict d) = (d \<noteq> [])"

text \<open>
  \<open>validate_and_clip\<close> on whatever the parser returned. A value that is not a dict has no
  \<open>keys\<close>: a str or a list fails there or at \<open>get\<close>, any other value at the first
  membership test of the schema loop.
\<close>

fun validate_parsed :: "pyval \<Rightarrow> pyval dict dict \<Rightarrow> error + vstate" where
  "validate_parsed (PDict d) schema = validate_and_clip d schema"
| "validate_parsed (PStr s) schema = Inl AttributeError"
| "validate_parsed (PList xs) schema = Inl AttributeError"
| "validate_parsed v schema = (if schema = [] then Inl AttributeError else Inl TypeError)"

text \<open>
  The common tail of both entry points: extract the JSON text, hand it to the parser,
  validate, score, and build the result of a success.
\<close>

definition validated_result ::
  "(string \<Rightarrow> exn + pyval) \<Rightarrow> pyval dict dict \<Rightarrow> string \<Rightarrow> string \<Rightarrow>
     event list \<times> (reason + inference_result)" where
  "validated_result loads schema m raw_text =
     ([JsonLoads (json_text raw_text)],
      case loads (json_text raw_text) of
        Inl e \<Rightarrow> Inl (Exception e)
      | Inr parsed \<Rightarrow>
         (case validate_parsed parsed schema of
            Inl err \<Rightarrow> Inl (Builtin err)
          | Inr (validated, clipped, violations) \<Rightarrow>
             (case confidence_score validated (defaults_from_schema schema) clipped of
                Inl err \<Rightarrow> Inl (Builtin err)
              | Inr conf \<Rightarrow>
                 Inr \<lparr>res_ok = True, res_params = Some validated, res_confidence = conf,
                      res_raw = Some raw_text,
                      res_clipped = (if clipped = [] then None else Some clipped),
                      res_violations =
                        (if violations = [] then None
                         else Some (Report (map (\<lambda>(k, s). (k, Tag s)) violations))),
                      res_model = m\<rparr>)))"

subsection \<open>The cooperative call\<close>

datatype response = Content "string option" | Malformed exn

datatype completion_result = Returns response | Raises exn

record soft_env =
  path_exists :: "string \<Rightarrow> bool"
  import_error :: "string option"
  loaded_model :: "string option"
  load_error :: "exn option"
  grammar_compiles :: "string \<Rightarrow> bool"
  prompt_error :: "exn option"
  supports_abort :: bool
  completion :: "nat \<Rightarrow> call \<Rightarrow> completion_result"
  json_loads :: "string \<Rightarrow> exn + pyval"

text \<open>
  The inner function \<open>_call\<close>: one completion call, repeated without the abort callback
  when the engine rejects that argument. It returns the outcome, the calls made and the
  number of the next call.
\<close>

definition call_engine ::
  "soft_env \<Rightarrow> bool \<Rightarrow> (nat \<Rightarrow> bool) option \<Rightarrow> nat \<Rightarrow> real \<Rightarrow> bool \<Rightarrow>
     completion_result \<times> event list \<times> nat" where
  "call_engine env grammar_obj cancel_event i temp use_grammar =
     (let kwargs = \<lparr>temperature = temp, with_grammar = (use_grammar \<and> grammar_obj),
                     with_abort = (cancel_event \<noteq> None \<and> supports_abort env)\<rparr>
      in case completion env i kwargs of
           Raises e \<Rightarrow>
             if ename e = ''TypeError'' \<and> contains ''abort_callback'' (emsg e)
             then (completion env (Suc i) (kwargs\<lparr>with_abort := False\<rparr>),
                   [ChatCompletion kwargs, ChatCompletion (kwargs\<lparr>with_abort := False\<rparr>)], i + 2)
             else (Raises e, [ChatCompletion kwargs], Suc i)
         | Returns r \<Rightarrow> (Returns r, [ChatCompletion kwargs], Suc i))"

text \<open>The body of an attempt behind the second cancellation check.\<close>

definition attempt_result ::
  "soft_env \<Rightarrow> pyval dict dict \<Rightarrow> string \<Rightarrow> response \<Rightarrow>
     event list \<times> (reason + inference_result)" where
  "attempt_result env schema m r =
     (case r of
        Malformed e \<Rightarrow> ([], Inl (Exception e))
      | Content c \<Rightarrow>
         (let raw_text = strip (case c of None \<Rightarrow> [] | Some s \<Rightarrow> s)
          in if raw_text = []
             then ([], Inl (Exception \<lparr>ename = ''RuntimeError'', emsg = ''empty_response''\<rparr>))
             else validated_result (json_loads env) schema m raw_text))"

text \<open>
  The loop over the attempts. \<open>n\<close> counts the questions put to the cancellation event,
  \<open>i\<close> the completion calls, \<open>trace\<close> holds the effects so far.
\<close>

fun soft_attempts ::
  "soft_env \<Rightarrow> bool \<Rightarrow> (nat \<Rightarrow> bool) option \<Rightarrow> pyval dict dict \<Rightarrow> string \<Rightarrow>
     (real \<times> bool) list \<Rightarrow> nat \<Rightarrow> nat \<Rightarrow> reason option \<Rightarrow> event list \<Rightarrow>
     event list \<times> inference_result" where
  "soft_attempts env g ce schema m [] n i last_err trace =
     (trace, failed [(''error'', case last_err of None \<Rightarrow> Tag ''unknown'' | Some e \<Rightarrow> e)] m)"
| "soft_attempts env g ce schema m ((temp, use_g) # rest) n i last_err trace =
     (if is_set ce n then (trace, canceled m)
      else case call_engine env g ce i temp use_g of
             (Raises e, evs, i') \<Rightarrow>
               if is_set ce (n + 1) then (trace @ evs, canceled m)
               else soft_attempts env g ce schema m rest (n + 2) i' (Some (Exception e)) (trace @ evs)
           | (Returns r, evs, i') \<Rightarrow>
               if is_set ce (n + 1) then (trace @ evs, canceled m)
               else (case attempt_result env schema m r of
                       (evs2, Inr res) \<Rightarrow> (trace @ evs @ evs2, res)
                     | (evs2, Inl e) \<Rightarrow>
                         if is_set ce (n + 2) then (trace @ evs @ evs2, canceled m)
                         else soft_attempts env g ce schema m rest (n + 3) i' (Some e)
                                (trace @ evs @ evs2)))"

definition run_llm_soft ::
  "soft_env \<Rightarrow> string \<Rightarrow> (nat \<Rightarrow> bool) option \<Rightarrow> string \<Rightarrow> pyval dict dict \<Rightarrow>
     event list \<times> (exn + inference_result)" where
  "run_llm_soft env prompt_text cancel_event model_path schema =
     (if \<not> path_exists env model_path
      then ([], Inr (failed [(''error'', Tag ''model_missing'')] ''(unset)''))
      else if schema = []
      then ([], Inr (failed [(''error'', Tag ''schema_missing'')] (basename model_path)))
      else case import_error env of
             Some msg \<Rightarrow>
               ([], Inr (failed [(''error'', Tag (''llama import failed: '' @ msg))]
                          (basename model_path)))
           | None \<Rightarrow>
              (let loading = (if loaded_model env = Some model_path then []
                              else [LoadModel model_path])
               in case (if loading = [] then None else load_error env) of
                    Some e \<Rightarrow> (loading, Inl e)
                  | None \<Rightarrow>
                     (case prompt_error env of
                        Some e \<Rightarrow> (loading, Inl e)
                      | None \<Rightarrow>
                         (case soft_attempts env (grammar_compiles env (gbnf_for_schema schema))
                                 cancel_event schema (basename model_path)
                                 [(4 / 10, True), (2 / 10, True), (4 / 10, False)]
                                 0 0 None loading of
                            (trace, res) \<Rightarrow> (trace, Inr res)))))"

subsection \<open>The isolated call\<close>

record hard_env =
  h_path_exists :: "string \<Rightarrow> bool"
  mkdir_error :: "exn option"
  write_error :: "exn option"
  spawn_error :: "exn option"
  exited :: "nat \<Rightarrow> bool"
  terminate_fails :: bool
  still_alive :: bool
  worker_output :: "exn + string \<times> string"
  h_json_loads :: "string \<Rightarrow> exn + pyval"

text \<open>
  The polling loop: at each round the cancellation event is asked first, the process
  second. The answer is whether the loop ended by cancellation; a worker that never exits
  and an event that is never set keep it running for ever.
\<close>

partial_function (option) wait_worker :: "(nat \<Rightarrow> bool) option \<Rightarrow> (nat \<Rightarrow> bool) \<Rightarrow> nat \<Rightarrow> bool option" where
  "wait_worker ce ex n =
     (if is_set ce n then Some True
      else if ex n then Some False
      else wait_worker ce ex (Suc n))"

definition subproc_error :: "reason \<Rightarrow> string \<Rightarrow> inference_result" where
  "subproc_error r m = failed [(''error'', Prefixed ''subproc_error: '' r)] m"

text \<open>\<open>(payload.get("raw") or "").strip()\<close>: only a str has \<open>strip\<close>.\<close>

definition payload_raw :: "pyval dict \<Rightarrow> error + string" where
  "payload_raw d =
     (let v = dict_get d ''raw'' PNone
      in if \<not> truthy v then Inr []
         else case v of PStr s \<Rightarrow> Inr (strip s) | _ \<Rightarrow> Inl AttributeError)"

text \<open>What follows the loop when the worker has exited.\<close>

definition worker_result ::
  "hard_env \<Rightarrow> pyval dict dict \<Rightarrow> string \<Rightarrow> event list \<times> inference_result" where
  "worker_result env schema m =
     (case worker_output env of
        Inl e \<Rightarrow> ([], subproc_error (Exception e) m)
      | Inr (out, err) \<Rightarrow>
         if out = []
         then ([], failed [(''error'', Tag ''subproc_no_output''),
                           (''stderr'', Tag (drop (length err - 512) err))] m)
         else (case h_json_loads env out of
                 Inl e \<Rightarrow> ([JsonLoads out], subproc_error (Exception e) m)
               | Inr (PDict payload) \<Rightarrow>
                   if truthy (dict_get payload ''ok'' PNone)
                   then (case payload_raw payload of
                           Inl err \<Rightarrow> ([JsonLoads out], subproc_error (Builtin err) m)
                         | Inr raw_text \<Rightarrow>
                            if raw_text = []
                            then ([JsonLoads out], failed [(''error'', Tag ''empty_response'')] m)
                            else (case validated_result (h_json_loads env) schema m raw_text of
                                    (evs, Inl e) \<Rightarrow> (JsonLoads out # evs, subproc_error e m)
                                  | (evs, Inr res) \<Rightarrow> (JsonLoads out # evs, res)))
                   else ([JsonLoads out],
                         (failed [(''error'', Tag ''subproc_failed'')] m)
                           \<lparr>res_violations :=
                              (let v = dict_get payload ''violations'' PNone
                               in if truthy v then Some (FromWorker v)
                                  else Some (Report [(''error'', Tag ''subproc_failed'')]))\<rparr>)
               | Inr _ \<Rightarrow> ([JsonLoads out], subproc_error (Builtin AttributeError) m)))"

text \<open>
  The steps before the \<open>try\<close> are not guarded: an exception of \<open>makedirs\<close>, of writing
  the argument file or of starting the process leaves the function, with the effects that
  were completed before it.
\<close>

definition run_llm_hard ::
  "hard_env \<Rightarrow> string \<Rightarrow> (nat \<Rightarrow> bool) option \<Rightarrow> string \<Rightarrow> pyval dict dict \<Rightarrow>
     (event list \<times> (exn + inference_result)) option" where
  "run_llm_hard env prompt_text cancel_event model_path schema =
     (if \<not> h_path_exists env model_path
      then Some ([], Inr (failed [(''error'', Tag ''model_missing'')] ''(unset)''))
      else if schema = []
      then Some ([], Inr (failed [(''error'', Tag ''schema_missing'')] (basename model_path)))
      else case mkdir_error env of
             Some e \<Rightarrow> Some ([WriteWorkerScript], Inl e)
           | None \<Rightarrow>
          (case write_error env of
             Some e \<Rightarrow> Some ([WriteWorkerScript, MakeTmpDir], Inl e)
           | None \<Rightarrow>
          (case spawn_error env of
             Some e \<Rightarrow> Some ([WriteWorkerScript, MakeTmpDir, WriteArgsFile], Inl e)
           | None \<Rightarrow>
          (case wait_worker cancel_event (exited env) 0 of
             None \<Rightarrow> None
           | Some True \<Rightarrow>
               Some ([WriteWorkerScript, MakeTmpDir, WriteArgsFile, SpawnWorker, TerminateWorker]
                       @ (if \<not> terminate_fails env \<and> still_alive env then [KillWorker] else [])
                       @ [RemoveArgsFile],
                     Inr (canceled (basename model_path)))
           | Some False \<Rightarrow>
               (case worker_result env schema (basename model_path) of
                  (evs, res) \<Rightarrow>
                    Some ([WriteWorkerScript, MakeTmpDir, WriteArgsFile, SpawnWorker,
                           ReadWorkerOutput] @ evs @ [RemoveArgsFile],
                          Inr res))))))"

subsection \<open>Example environments\<close>


definition never_set :: "(nat \<Rightarrow> bool) option" where
  "never_set = Some (\<lambda>n. False)"

definition loads_x3 :: "string \<Rightarrow> exn + pyval" where
  \<open>loads_x3 s = (if s = ''{"x": 3}'' then Inr (PDict [(''x'', PInt 3)])
                 else Inl \<lparr>ename = ''JSONDecodeError'', emsg = ''Expecting value''\<rparr>)\<close>

definition env_cold :: soft_env where
  \<open>env_cold =
     \<lparr>path_exists = (\<lambda>p. p = ''/models/m.gguf''), import_error = None, loaded_model = None,
      load_error = None, grammar_compiles = (\<lambda>g. True), prompt_error = None,
      supports_abort = True,
      completion = (\<lambda>i c. Returns (Content (Some ''Sure! {"x": 3} done.''))),
      json_loads = loads_x3\<rparr>\<close>

definition henv_idle :: hard_env where
  "henv_idle =
     \<lparr>h_path_exists = (\<lambda>p. p = ''/models/m.gguf''), mkdir_error = None, write_error = None,
      spawn_error = None, exited = (\<lambda>n. False), terminate_fails = False, still_alive = False,
      worker_output = Inr ([], []), h_json_loads = loads_x3\<rparr>"

text \<open>
  A response with two objects, a parser that rejects it, and a worker whose single line of
  output carries the response of the scenario.
\<close>

definition two_objects :: string where
  \<open>two_objects = ''{"x": 3} {"y": 4}''\<close>

definition loads_two :: "string \<Rightarrow> exn + pyval" where
  \<open>loads_two s = (if s = ''{"x": 3}'' then Inr (PDict [(''x'', PInt 3)])
                  else Inl \<lparr>ename = ''JSONDecodeError'',
                           emsg = ''Extra data: line 1 column 10 (char 9)''\<rparr>)\<close>

definition env_two :: soft_env where
  "env_two = env_cold\<lparr>completion := (\<lambda>i c. Returns (Content (Some two_objects))),
                      json_loads := loads_two\<rparr>"

definition worker_line :: string where
  \<open>worker_line = ''{"ok": true, "raw": "Sure! {'' @ [bsl, dq] @ ''x'' @ [bsl, dq] @
                  '': 3} done.", "elapsed": 1.5}''\<close>

definition loads_worker :: "string \<Rightarrow> exn + pyval" where
  \<open>loads_worker s =
     (if s = worker_line
      then Inr (PDict [(''ok'', PBool True), (''raw'', PStr ''Sure! {"x": 3} done.''),
                       (''elapsed'', PFloat (Fin (3 / 2)))])
      else loads_x3 s)\<close>

definition henv_done :: hard_env where
  "henv_done = henv_idle\<lparr>exited := (\<lambda>n. True), worker_output := Inr (worker_line, []),
                         h_json_loads := loads_worker\<rparr>"

section \<open>Properties of validation\<close>

lemma update_fresh: "k \<notin> fst ` set al \<Longrightarrow> AList.update k v al = al @ [(k, v)]"
  by (induction al) auto







lemma schema_loop_out:
  "schema_loop params S (out, cl, vi) = Inr (out', cl', vi') \<Longrightarrow> distinct (map fst S) \<Longrightarrow>
   fst ` set out \<inter> fst ` set S = {} \<Longrightarrow>
     \<exists>ys. out' = out @ ys \<and> list_all2 (out_entry params) S ys"
proof (induction S arbitrary: out cl vi)
  case Nil
  then show ?case by simp
next
  case (Cons a S)
  obtain k spec where a: "a = (k, spec)" by (cases a)
  from Cons.prems a have fresh: "k \<notin> fst ` set out" and d: "distinct (map fst S)"
    and kS: "k \<notin> fst ` set S" and disj: "fst ` set out \<inter> fst ` set S = {}" by auto
  have disj': "fst ` set (out @ [(k, w)]) \<inter> fst ` set S = {}" for w
    using kS disj by auto
  show ?case
  proof (cases "map_of params k")
    case None
    let ?w = "dict_get spec ''default'' PNone"
    from Cons.prems(1) a None have "schema_loop params S
            (out @ [(k, ?w)], cl, AList.update k ''missing->default'' vi) = Inr (out', cl', vi')"
      by (simp add: update_fresh[OF fresh])
    from Cons.IH[OF this d disj'] obtain ys where
      ys: "out' = (out @ [(k, ?w)]) @ ys" "list_all2 (out_entry params) S ys" by blast
    have "out_entry params a (k, ?w)" by (simp add: out_entry_def out_value_def a None)
    with ys show ?thesis by (intro exI[of _ "(k, ?w) # ys"]) simp
  next
    case (Some v_in)
    with Cons.prems(1) a obtain v where v: "clip_value v_in spec = Inr v"
      and rest: "schema_loop params S (out @ [(k, v)],
                  (if \<not> py_eq v v_in
                   then AList.update k [(''in'', v_in), (''out'', v)] cl else cl), vi) = Inr (out', cl', vi')"
      by (auto split: sum.splits simp: update_fresh[OF fresh])
    from Cons.IH[OF rest d disj'] obtain ys where
      ys: "out' = (out @ [(k, v)]) @ ys" "list_all2 (out_entry params) S ys" by blast
    have "out_entry params a (k, v)" by (simp add: out_entry_def out_value_def a Some v)
    with ys show ?thesis by (intro exI[of _ "(k, v) # ys"]) simp
  qed
qed

lemma out_entry_keys: "list_all2 (out_entry params) S ys \<Longrightarrow> map fst ys = map fst S"
  by (induction rule: list_all2_induct) (auto simp: out_entry_def)

lemma out_entry_lookup:
  "list_all2 (out_entry params) S ys \<Longrightarrow> distinct (map fst S) \<Longrightarrow> (k, spec) \<in> set S \<Longrightarrow>
     \<exists>w. map_of ys k = Some w \<and> out_value params k spec = Inr w"
proof (induction rule: list_all2_induct)
  case Nil
  then show ?case by simp
next
  case (Cons e es r rs)
  show ?case
  proof (cases "e = (k, spec)")
    case True
    with Cons.hyps(1) show ?thesis by (cases r) (auto simp: out_entry_def)
  next
    case False
    with Cons.prems have in_es: "(k, spec) \<in> set es" and d: "distinct (map fst es)" by auto
    from in_es have "k \<in> fst ` set es" by (metis fst_conv imageI)
    with Cons.prems(1) have "fst e \<noteq> k" by auto
    with Cons.hyps(1) have "fst r \<noteq> k" by (simp add: out_entry_def)
    with Cons.IH[OF d in_es] show ?thesis by (cases r) auto
  qed
qed

lemma list_all2_right_unique:
  assumes "list_all2 R xs ys" and "list_all2 R xs zs"
    and uniq: "\<And>x y z. R x y \<Longrightarrow> R x z \<Longrightarrow> y = z"
  shows "ys = zs"
  using assms(1,2)
proof (induction arbitrary: zs rule: list_all2_induct)
  case Nil
  then show ?case by simp
next
  case (Cons x xs y ys)
  from Cons.prems obtain z zs' where zs: "zs = z # zs'" and Rz: "R x z" and rest: "list_all2 R xs zs'"
    by (cases zs) simp_all
  from uniq[OF Cons.hyps(1) Rz] Cons.IH[OF rest] zs show ?case by simp
qed

lemma schema_loop_clipped:
  "schema_loop params S (out, cl, vi) = Inr (out', cl', vi') \<Longrightarrow> map_of params k = None \<Longrightarrow>
     map_of cl' k = map_of cl k"
proof (induction S arbitrary: out cl vi)
  case Nil
  then show ?case by simp
next
  case (Cons a S)
  obtain k' spec where a: "a = (k', spec)" by (cases a)
  show ?case
  proof (cases "map_of params k'")
    case None
    with Cons.prems(1) a have "schema_loop params S
            (AList.update k' (dict_get spec ''default'' PNone) out, cl,
             AList.update k' ''missing->default'' vi) = Inr (out', cl', vi')" by simp
    from Cons.IH[OF this Cons.prems(2)] show ?thesis .
  next
    case (Some v_in)
    with Cons.prems(2) have ne: "k' \<noteq> k" by auto
    from Some Cons.prems(1) a obtain v where
      rest: "schema_loop params S (AList.update k' v out,
                  (if \<not> py_eq v v_in
                   then AList.update k' [(''in'', v_in), (''out'', v)] cl else cl), vi) = Inr (out', cl', vi')"
      by (auto split: sum.splits)
    from Cons.IH[OF rest Cons.prems(2)] ne show ?thesis by (auto simp: update_conv')
  qed
qed

lemma schema_loop_missing:
  "schema_loop params S (out, cl, vi) = Inr (out', cl', vi') \<Longrightarrow> map_of params k = None \<Longrightarrow>
     map_of vi' k = (if k \<in> fst ` set S then Some ''missing->default'' else map_of vi k)"
proof (induction S arbitrary: out cl vi)
  case Nil
  then show ?case by simp
next
  case (Cons a S)
  obtain k' spec where a: "a = (k', spec)" by (cases a)
  show ?case
  proof (cases "map_of params k'")
    case None
    with Cons.prems(1) a have "schema_loop params S
            (AList.update k' (dict_get spec ''default'' PNone) out, cl,
             AList.update k' ''missing->default'' vi) = Inr (out', cl', vi')" by simp
    from Cons.IH[OF this Cons.prems(2)] show ?thesis by (auto simp: a update_conv')
  next
    case (Some v_in)
    with Cons.prems(2) have ne: "k' \<noteq> k" by auto
    from Some Cons.prems(1) a obtain v where
      rest: "schema_loop params S (AList.update k' v out,
                  (if \<not> py_eq v v_in
                   then AList.update k' [(''in'', v_in), (''out'', v)] cl else cl), vi) = Inr (out', cl', vi')"
      by (auto split: sum.splits)
    from Cons.IH[OF rest Cons.prems(2)] ne show ?thesis by (auto simp: a)
  qed
qed

lemma params_loop_other:
  "k \<notin> set ks \<Longrightarrow> map_of (params_loop ks S vi) k = map_of vi k"
  by (induction ks arbitrary: vi) (auto simp: update_conv')

lemma map_of_None_keys: "map_of al k = None \<Longrightarrow> k \<notin> set (map fst al)"
  by (simp add: map_of_eq_None_iff)

lemmas eval_defs =
  validate_and_clip_def clip_value_def clip_float_def clip_integer_def clip_bool_def
  dict_get_def py_min_def py_max_def py_eq_def float_limit_def



text \<open>
  Claim C10. For a schema key that the candidate lacks, the validated params hold the
  entry's \<open>default\<close> field as it stands (\<open>None\<close> when the entry has none): no conversion
  and no clamping is applied to it, the clip report has no entry for the key, and the
  violations record \<open>missing->default\<close> for it.
\<close>

theorem validate_and_clip_missing_default:
  assumes "distinct (map fst S)" and "(k, spec) \<in> set S" and "map_of C k = None"
    and "validate_and_clip C S = Inr (out, cl, vi)"
  shows "map_of out k = Some (dict_get spec ''default'' PNone) \<and> map_of cl k = None \<and>
         map_of vi k = Some ''missing->default''"
proof -
  from assms(4) obtain vi0 where loop: "schema_loop C S ([], [], []) = Inr (out, cl, vi0)"
    and vi: "vi = params_loop (map fst C) S vi0"
    by (auto simp: validate_and_clip_def split: sum.splits)
  from schema_loop_out[OF loop assms(1)] have ys: "list_all2 (out_entry C) S out" by simp
  from out_entry_lookup[OF ys assms(1,2)] assms(3)
  have 1: "map_of out k = Some (dict_get spec ''default'' PNone)" by (auto simp: out_value_def)
  from schema_loop_clipped[OF loop assms(3)] have 2: "map_of cl k = None" by simp
  from assms(2) have "k \<in> fst ` set S" by force
  with schema_loop_missing[OF loop assms(3)] have "map_of vi0 k = Some ''missing->default''" by simp
  with params_loop_other[OF map_of_None_keys[OF assms(3)], of S vi0] vi
  have 3: "map_of vi k = Some ''missing->default''" by simp
  from 1 2 3 show ?thesis by simp
qed

theorem validate_and_clip_missing_default_witness:
  "distinct (map fst schema_x_far) \<and>
   (''x'', [(''type'', PStr ''float''), (''min'', PInt 0), (''max'', PInt 10),
            (''default'', PInt 20)]) \<in> set schema_x_far \<and>
   map_of ([] :: pyval dict) ''x'' = None \<and>
   validate_and_clip [] schema_x_far =
     Inr ([(''x'', PInt 20)], [], [(''x'', ''missing->default'')]) \<and>
   map_of [(''x'', PInt 20)] ''x'' = Some (PInt 20) \<and>
   map_of ([] :: pyval dict dict) ''x'' = None \<and>
   map_of [(''x'', ''missing->default'')] ''x'' = Some ''missing->default''"
proof -
  have d: "distinct (map fst schema_x_far)" by (simp add: schema_x_far_def)
  have m: "(''x'', [(''type'', PStr ''float''), (''min'', PInt 0), (''max'', PInt 10),
            (''default'', PInt 20)]) \<in> set schema_x_far" by (simp add: schema_x_far_def)
  have n: "map_of ([] :: pyval dict) ''x'' = None" by simp
  have run: "validate_and_clip [] schema_x_far =
     Inr ([(''x'', PInt 20)], [], [(''x'', ''missing->default'')])"
    by (simp add: eval_defs schema_x_far_def)
  from validate_and_clip_missing_default[OF d m n run] d m run
  show ?thesis by (simp add: dict_get_def)
qed






















text \<open>
  Claim C4 as stated fails: for the schema with the bool entry \<open>flag\<close> and the candidate
  whose \<open>flag\<close> is the string \<open>yes\<close>, the validated value is \<open>True\<close>, and since
  \<open>True != "yes"\<close> the clip report does get an entry for \<open>flag\<close>.
\<close>

theorem validate_and_clip_flag_yes_is_clipped:
  "\<not> (params_of (validate_and_clip [(''flag'', PStr ''yes'')] schema_flag) = [(''flag'', PBool True)] \<and>
      map_of (clipped_of (validate_and_clip [(''flag'', PStr ''yes'')] schema_flag)) ''flag'' = None)"
  by (simp add: eval_defs schema_flag_def lower_def lower_char_def params_of_def clipped_of_def)

text \<open>
  Claim C4, amended. For that schema and candidate \<open>validate_and_clip\<close> returns the
  validated params \<open>{"flag": True}\<close>, the clip report
  \<open>{"flag": {"in": "yes", "out": True}}\<close> and no violation.
\<close>

theorem validate_and_clip_flag_yes:
  "validate_and_clip [(''flag'', PStr ''yes'')] schema_flag =
     Inr ([(''flag'', PBool True)],
          [(''flag'', [(''in'', PStr ''yes''), (''out'', PBool True)])], [])"
  by (simp add: eval_defs schema_flag_def lower_def lower_char_def)

lemma clamp_in_range:
  "flt_le lo hi \<Longrightarrow> x \<noteq> NaN \<Longrightarrow>
     flt_le lo (py_min (py_max x lo) hi) \<and> flt_le (py_min (py_max x lo) hi) hi"
  by (cases x; cases lo; cases hi) (auto simp: flt_le_def py_min_def py_max_def)

lemma clamp_nan: "py_min (py_max NaN lo) hi = NaN"
  by (simp add: py_min_def py_max_def)

lemma clip_float_in_range:
  assumes "map_of spec ''type'' = Some (PStr ''float'')"
    and "map_of spec ''min'' = Some mn" "py_float mn = Inr lo"
    and "map_of spec ''max'' = Some mx" "py_float mx = Inr hi"
    and "flt_le lo hi" and "clip_value v spec = Inr w"
  shows "\<exists>f. w = PFloat f \<and> (f = NaN \<or> (flt_le lo f \<and> flt_le f hi))"
proof -
  from assms(1,7) have "clip_float v spec = Inr w" by (simp add: clip_value_def)
  then obtain x where "w = PFloat (py_min (py_max x lo) hi)"
    by (auto simp: clip_float_def dict_get_def assms(2-5) split: sum.splits)
  with clamp_in_range[OF assms(6), of x] clamp_nan[of lo hi] show ?thesis
    by (cases "x = NaN") auto
qed

lemma clip_integer_in_range:
  assumes "map_of spec ''type'' = Some (PStr ''integer'')"
    and "map_of spec ''min'' = Some mn" "py_int mn = Inr lo"
    and "map_of spec ''max'' = Some mx" "py_int mx = Inr hi"
    and "lo \<le> hi" and "clip_value v spec = Inr w"
  shows "\<exists>n. w = PInt n \<and> lo \<le> n \<and> n \<le> hi"
proof -
  from assms(1,7) have "clip_integer v spec = Inr w" by (simp add: clip_value_def)
  then obtain x where "w = PInt (min (max x lo) hi)"
    by (auto simp: clip_integer_def dict_get_def assms(2-5) split: sum.splits)
  with assms(6) show ?thesis by auto
qed

text \<open>
  Claim C2 fails on the code for a float entry: the string \<open>nan\<close> (and the float \<open>nan\<close>)
  converts without an exception, both comparisons of the clamp are false, and \<open>nan\<close> is
  stored for the key although the entry has \<open>min = 0\<close> and \<open>max = 10\<close>. The two lemmas
  above bound the defect: any other value of a float entry, and every value of an integer
  entry, ends within the converted bounds.
\<close>

theorem validate_and_clip_nan_escapes:
  "validate_and_clip [(''x'', PStr ''nan'')] schema_x =
     Inr ([(''x'', PFloat NaN)], [(''x'', [(''in'', PStr ''nan''), (''out'', PFloat NaN)])], []) \<and>
   validate_and_clip [(''x'', PFloat NaN)] schema_x =
     Inr ([(''x'', PFloat NaN)], [(''x'', [(''in'', PFloat NaN), (''out'', PFloat NaN)])], []) \<and>
   \<not> (flt_le (Fin 0) NaN \<and> flt_le NaN (Fin 10))"
  by (simp add: eval_defs schema_x_def float_of_string_def strip_with_def is_num_space_def
        lower_def lower_char_def flt_le_def)

section \<open>Properties of the confidence score\<close>

lemma small_in_range: "\<bar>r\<bar> \<le> 2 \<Longrightarrow> to_range r = Fin r"
proof -
  assume a: "\<bar>r\<bar> \<le> 2"
  have "(2::real) < float_limit" by (simp add: float_limit_def)
  with a show ?thesis by (auto simp: to_range_def)
qed

lemma bool_diff:
  "key_diff (PBool v) (PBool d) =
     Some (Inr (Fin (if v = d then 0 else if d then 1 / (2 + eps) else 1 / (1 + eps))))"
proof -
  have e: "0 < eps" "eps < 1" by (simp_all add: eps_def)
  have r1: "to_range 2 = Fin 2" "to_range 1 = Fin 1" by (simp_all add: small_in_range)
  have r2: "to_range (2 + eps) = Fin (2 + eps)" "to_range (1 + eps) = Fin (1 + eps)"
    using e by (simp_all add: to_range_def float_limit_def)
  have q1: "to_range (1 / (2 + eps)) = Fin (1 / (2 + eps))" 
    using e by (intro small_in_range) (simp add: field_simps)
  have q2: "to_range (1 / (1 + eps)) = Fin (1 / (1 + eps))"
    using e by (intro small_in_range) (simp add: field_simps)
  have q0: "to_range 0 = Fin 0" by (simp add: small_in_range)
  have ne: "2 + eps \<noteq> 0" "1 + eps \<noteq> 0" using e by simp_all
  have lt: "1 / (2 + eps) < 1" "1 / (1 + eps) < 1" using e by (simp_all add: field_simps)
  show ?thesis
    by (cases v; cases d)
       (simp_all add: key_diff_def numeric_diff_def float_limit_def r1 r2 q0 q1 q2 ne lt py_min_def)
qed

lemma confidence_flag_changed: "confidence_score [(''flag'', PBool True)] [(''flag'', PBool False)] ([] :: pyval dict dict)
    = Inr (Fin (1 / (1 + eps)))"
proof -
  have e: "0 < eps" "eps < 1" by (simp_all add: eps_def)
  have q2: "to_range (1 / (1 + eps)) = Fin (1 / (1 + eps))"
    using e by (intro small_in_range) (simp add: field_simps)
  have r: "to_range (0 + 1 / (1 + eps)) = Fin (1 / (1 + eps))" using q2 by simp
  have r0: "to_range 1 = Fin 1" by (simp add: small_in_range)
  have m: "to_range (1 / (1 + eps) * 1) = Fin (1 / (1 + eps))" using q2 by simp
  have lt: "1 / (1 + eps) < 1" "0 \<le> 1 / (1 + eps)" using e by (simp_all add: field_simps)
  show ?thesis
    using lt by (simp add: confidence_score_def Let_def bool_diff pf_sub_def py_min_def py_max_def r r0 m q2)
qed

text \<open>
  Claim C5 fails on the code: a bool is an int for \<open>isinstance\<close>, so two bools take the
  numeric branch and the \<open>elif\<close> with the constant 0.3 is never reached. A changed bool
  contributes \<open>1/(1+eps)\<close> when the default is \<open>False\<close> and \<open>1/(2+eps)\<close> when it is
  \<open>True\<close>; an unchanged one contributes 0, as claimed.
\<close>

theorem confidence_bool_takes_numeric_branch:
  "key_diff (PBool v) (PBool d) =
     Some (Inr (Fin (if v = d then 0 else if d then 1 / (2 + eps) else 1 / (1 + eps)))) \<and>
   confidence_score [(''flag'', PBool True)] [(''flag'', PBool False)] ([] :: pyval dict dict)
     = Inr (Fin (1 / (1 + eps))) \<and>
   1 / (1 + eps) \<noteq> 3 / 10 \<and> 1 / (2 + eps) \<noteq> 3 / 10"
  by (simp add: bool_diff confidence_flag_changed) (simp add: eps_def)


section \<open>Properties of the grammar\<close>

lemma keys_schema_mixed: "number_keys schema_mixed = [''x'', ''y'']" "bool_keys schema_mixed = [''flag'']"
  by (simp_all add: number_keys_def bool_keys_def schema_mixed_def sort_keys_def)

lemma alts_x_y: \<open>alts [''x'', ''y''] = ''"x" | "y"''\<close>
  by (simp add: alts_def json_dumps_str_def json_escape_def dq_def bsl_def)

text \<open>
  Claim C6 fails on the code for a schema whose only keys are bool keys: the function has a
  branch for numeric and bool keys together and one for numeric keys alone, and every other
  schema falls through to the grammar of the empty object. For the schema with the single
  bool key \<open>flag\<close> the grammar is, character for character, the one of the empty schema:
  its root derives no pair, so no object with the key \<open>flag\<close>.
\<close>

theorem gbnf_bool_only_is_empty_object:
  \<open>bool_keys schema_flag = [''flag''] \<and> number_keys schema_flag = [] \<and>
   gbnf_for_schema schema_flag = join nl [''root ::= ws "{" ws "}" ws'', '''', boolean_def] \<and>
   gbnf_for_schema schema_flag = gbnf_for_schema []\<close>
  by (simp add: gbnf_for_schema_def number_keys_def bool_keys_def schema_flag_def sort_keys_def)

lemma gbnf_schema_mixed: \<open>gbnf_for_schema schema_mixed = join nl
             [''root ::= ws "{" ws members? ws "}" ws'',
              ''members ::= pair (ws "," ws pair)*'',
              ''pair ::= number_pair | bool_pair'',
              ''number_pair ::= number_key ws ":" ws number'',
              ''number_key ::= "x" | "y"'',
              ''bool_pair ::= bool_key ws ":" ws boolean'',
              ''bool_key ::= "flag"'',
              '''',
              boolean_def]\<close>
  by (simp add: gbnf_for_schema_def keys_schema_mixed alts_def json_dumps_str_def json_escape_def dq_def bsl_def)

section \<open>Properties of the extraction\<close>

lemma dropWhile_skip: "x \<notin> set pre \<Longrightarrow> dropWhile (\<lambda>c. c \<noteq> x) (pre @ x # rest) = x # rest"
  by (induction pre) auto

lemma brace_match_span:
  assumes "CHR ''{'' \<notin> set pre" and "CHR ''}'' \<notin> set post"
  shows "brace_match (pre @ CHR ''{'' # mid @ CHR ''}'' # post) = Some (CHR ''{'' # mid @ [CHR ''}''])"
proof -
  have 1: "dropWhile (\<lambda>c. c \<noteq> CHR ''{'') (pre @ CHR ''{'' # mid @ CHR ''}'' # post)
             = CHR ''{'' # mid @ CHR ''}'' # post"
    using assms(1) by (rule dropWhile_skip)
  from assms(2) have "CHR ''}'' \<notin> set (rev post)" by simp
  then have 2: "dropWhile (\<lambda>c. c \<noteq> CHR ''}'') (rev post @ CHR ''}'' # rev mid) = CHR ''}'' # rev mid"
    by (rule dropWhile_skip)
  show ?thesis unfolding brace_match_def 1 by (simp add: 2)
qed

lemma brace_match_none:
  assumes "\<And>pre mid post. raw \<noteq> pre @ CHR ''{'' # mid @ CHR ''}'' # post"
  shows "brace_match raw = None"
proof (cases "dropWhile (\<lambda>c. c \<noteq> CHR ''{'') raw")
  case Nil
  show ?thesis unfolding brace_match_def Nil by simp
next
  case (Cons c t)
  then have "dropWhile (\<lambda>c. c \<noteq> CHR ''{'') raw \<noteq> []" by simp
  from hd_dropWhile[OF this] Cons have c: "c = CHR ''{''" by simp
  have split: "raw = takeWhile (\<lambda>c. c \<noteq> CHR ''{'') raw @ CHR ''{'' # t"
    using takeWhile_dropWhile_id[of "\<lambda>c. c \<noteq> CHR ''{''" raw] Cons c by simp
  have "CHR ''}'' \<notin> set t"
  proof
    assume "CHR ''}'' \<in> set t"
    then obtain a b where "t = a @ CHR ''}'' # b" by (auto simp: in_set_conv_decomp)
    with split have "raw = takeWhile (\<lambda>c. c \<noteq> CHR ''{'') raw @ CHR ''{'' # a @ CHR ''}'' # b" by simp
    with assms show False by blast
  qed
  then show ?thesis unfolding brace_match_def Cons by simp
qed

lemma spec_json_text_scenario: \<open>spec_json_text ''Sure! {"x": 3} done.'' = ''{"x": 3}''\<close>
  by (simp add: spec_json_text_def)
lemma json_text_no_match: \<open>json_text ''a } b { c'' = ''a } b { c''\<close>
  by (simp add: json_text_def brace_match_def)
lemma json_text_nested: \<open>json_text ''{"a": {"b": 1}} tail'' = ''{"a": {"b": 1}}''\<close>
  by (simp add: json_text_def brace_match_def)

lemma brace_match_decomp:
  assumes "raw = pre @ CHR ''{'' # mid @ CHR ''}'' # post"
  shows "brace_match raw \<noteq> None"
proof -
  let ?P = "\<lambda>c. c \<noteq> CHR ''{''"
  have "\<exists>t. dropWhile ?P raw = CHR ''{'' # t \<and> CHR ''}'' \<in> set t"
  proof (cases "\<forall>x \<in> set pre. ?P x")
    case True
    then have "dropWhile ?P raw = CHR ''{'' # mid @ CHR ''}'' # post"
      unfolding assms by (simp add: dropWhile_append)
    then show ?thesis by simp
  next
    case False
    then have ne: "dropWhile ?P pre \<noteq> []" by (simp add: dropWhile_eq_Nil_conv)
    then obtain c t where ct: "dropWhile ?P pre = c # t" by (cases "dropWhile ?P pre") auto
    from hd_dropWhile[OF ne] ct have "c = CHR ''{''" by simp
    moreover from False have "dropWhile ?P raw = dropWhile ?P pre @ CHR ''{'' # mid @ CHR ''}'' # post"
      unfolding assms by (simp add: dropWhile_append)
    ultimately show ?thesis using ct by simp
  qed
  then show ?thesis by (auto simp: brace_match_def)
qed

section \<open>Properties of the inference calls\<close>

lemma failed_fields:
  "res_ok (failed vio m) = False \<and> res_params (failed vio m) = None \<and>
   res_violations (failed vio m) = Some (Report vio)"
  by (simp add: failed_def)

text \<open>
  Claim C9. Both entry points test the model path first and the schema second, before any
  other step: with a model path that does not exist they return the failure
  \<open>model_missing\<close>, with an existing path and an empty schema the failure
  \<open>schema_missing\<close>, in both cases with no effect at all, hence without loading the model,
  calling the completion or starting the worker.
\<close>

theorem config_errors_fail_fast:
  "(\<not> path_exists env p \<longrightarrow>
      run_llm_soft env pt ce p S = ([], Inr (failed [(''error'', Tag ''model_missing'')] ''(unset)''))) \<and>
   (path_exists env q \<longrightarrow>
      run_llm_soft env pt ce q [] =
        ([], Inr (failed [(''error'', Tag ''schema_missing'')] (basename q)))) \<and>
   (\<not> h_path_exists henv p \<longrightarrow>
      run_llm_hard henv pt ce p S =
        Some ([], Inr (failed [(''error'', Tag ''model_missing'')] ''(unset)''))) \<and>
   (h_path_exists henv q \<longrightarrow>
      run_llm_hard henv pt ce q [] =
        Some ([], Inr (failed [(''error'', Tag ''schema_missing'')] (basename q)))) \<and>
   res_ok (failed vio m) = False \<and> res_violations (failed vio m) = Some (Report vio)"
  by (simp add: run_llm_soft_def run_llm_hard_def failed_def)

theorem config_errors_fail_fast_witness:
  "\<not> path_exists env_cold ''/nowhere.gguf'' \<and> path_exists env_cold ''/models/m.gguf'' \<and>
   \<not> h_path_exists henv_idle ''/nowhere.gguf'' \<and> h_path_exists henv_idle ''/models/m.gguf'' \<and>
   run_llm_soft env_cold ''a tall pine'' never_set ''/nowhere.gguf'' schema_x =
     ([], Inr (failed [(''error'', Tag ''model_missing'')] ''(unset)'')) \<and>
   run_llm_soft env_cold ''a tall pine'' never_set ''/models/m.gguf'' [] =
     ([], Inr (failed [(''error'', Tag ''schema_missing'')] ''m.gguf'')) \<and>
   run_llm_hard henv_idle ''a tall pine'' never_set ''/nowhere.gguf'' schema_x =
     Some ([], Inr (failed [(''error'', Tag ''model_missing'')] ''(unset)'')) \<and>
   run_llm_hard henv_idle ''a tall pine'' never_set ''/models/m.gguf'' [] =
     Some ([], Inr (failed [(''error'', Tag ''schema_missing'')] ''m.gguf''))"
proof -
  have h: "\<not> path_exists env_cold ''/nowhere.gguf''" "path_exists env_cold ''/models/m.gguf''"
    "\<not> h_path_exists henv_idle ''/nowhere.gguf''" "h_path_exists henv_idle ''/models/m.gguf''"
    by (simp_all add: env_cold_def henv_idle_def)
  have b: "basename ''/models/m.gguf'' = ''m.gguf''" by (simp add: basename_def)
  from config_errors_fail_fast[of env_cold "''/nowhere.gguf''" "''a tall pine''" never_set schema_x
             "''/models/m.gguf''" henv_idle] h b
  show ?thesis by simp
qed




lemma to_range_small: "\<bar>r\<bar> \<le> 10 \<Longrightarrow> to_range r = Fin r"
proof -
  assume a: "\<bar>r\<bar> \<le> 10"
  have "(10::real) < float_limit" by (simp add: float_limit_def)
  with a show ?thesis by (auto simp: to_range_def)
qed

lemma confidence_x3:
  "confidence_score [(''x'', PFloat (Fin 3))] (defaults_from_schema schema_x) ([] :: pyval dict dict)
     = Inr (Fin (2 / (6 + eps)))"
proof -
  have e: "0 < eps" "eps < 1" by (simp_all add: eps_def)
  have q: "0 \<le> 2 / (6 + eps)" "2 / (6 + eps) < 1" using e by (simp_all add: field_simps)
  have r: "to_range 6 = Fin 6" "to_range (- 2) = Fin (- 2)" "to_range 1 = Fin 1"
    "to_range (6 + eps) = Fin (6 + eps)"
    using e by (simp_all add: to_range_small)
  have "\<bar>2 / (6 + eps)\<bar> \<le> 10" using q by simp
  then have r5: "to_range (2 / (6 + eps)) = Fin (2 / (6 + eps))" by (rule to_range_small)
  have ne: "6 + eps \<noteq> 0" using e by simp
  have fl: "\<not> float_limit \<le> 5" by (simp add: float_limit_def)
  show ?thesis
    using q
    by (simp add: confidence_score_def defaults_from_schema_def schema_x_def dict_get_def
          key_diff_def numeric_diff_def pf_sub_def r r5 ne fl py_min_def py_max_def Let_def)
qed

lemma run_llm_soft_scenario:
  \<open>run_llm_soft env_cold ''a tall pine'' never_set ''/models/m.gguf'' schema_x =
     ([LoadModel ''/models/m.gguf'',
       ChatCompletion \<lparr>temperature = 4 / 10, with_grammar = True, with_abort = True\<rparr>,
       JsonLoads ''{"x": 3}''],
      Inr \<lparr>res_ok = True, res_params = Some [(''x'', PFloat (Fin 3))],
           res_confidence = Fin (2 / (6 + eps)), res_raw = Some ''Sure! {"x": 3} done.'',
           res_clipped = None, res_violations = None, res_model = ''m.gguf''\<rparr>)\<close>
proof -
  have v: "validate_and_clip [(''x'', PInt 3)] schema_x = Inr ([(''x'', PFloat (Fin 3))], [], [])"
    by (simp add: eval_defs schema_x_def)
  have j: \<open>json_text ''Sure! {"x": 3} done.'' = ''{"x": 3}''\<close>
    by (simp add: json_text_def brace_match_def)
  have s: \<open>strip ''Sure! {"x": 3} done.'' = ''Sure! {"x": 3} done.''\<close>
    by (simp add: strip_def strip_with_def is_space_def)
  have b: "basename ''/models/m.gguf'' = ''m.gguf''" by (simp add: basename_def)
  have ne: "schema_x \<noteq> []" by (simp add: schema_x_def)
  show ?thesis
    by (simp add: run_llm_soft_def env_cold_def never_set_def is_set_def call_engine_def
          attempt_result_def validated_result_def loads_x3_def j s b v ne confidence_x3)
qed

lemma wait_worker_exited:
  "\<not> is_set ce 0 \<Longrightarrow> ex 0 \<Longrightarrow> wait_worker ce ex 0 = Some False"
  by (subst wait_worker.simps) simp

subsection \<open>The text handed to the parser\<close>

lemma parsed_texts_append: "parsed_texts (a @ b) = parsed_texts a @ parsed_texts b"
  by (induction a rule: parsed_texts.induct) simp_all

lemma call_engine_cases:
  assumes "call_engine env g ce i t u = (r, evs, i')"
  shows "parsed_texts evs = [] \<and> (\<forall>x. r = Returns x \<longrightarrow> (\<exists>j kw. completion env j kw = Returns x))"
  using assms unfolding call_engine_def Let_def
  by (auto split: completion_result.splits if_splits)

lemma strip_Nil: "strip [] = []"
  by (simp add: strip_def strip_with_def)

lemma attempt_result_parsed:
  assumes "attempt_result env S m r = (evs, x)"
  shows "parsed_texts evs = [] \<or> (\<exists>c. r = Content (Some c) \<and> parsed_texts evs = [json_text (strip c)])"
  using assms unfolding attempt_result_def validated_result_def Let_def
  by (auto simp: strip_Nil split: response.splits option.splits if_splits)

lemma soft_attempts_parsed:
  assumes "soft_attempts env g ce S m atts n i le tr = (tr', res)"
    and "list_all (\<lambda>t. \<exists>j kw c. completion env j kw = Returns (Content (Some c)) \<and>
                                  t = json_text (strip c)) (parsed_texts tr)"
  shows "list_all (\<lambda>t. \<exists>j kw c. completion env j kw = Returns (Content (Some c)) \<and>
                                  t = json_text (strip c)) (parsed_texts tr')"
  using assms
proof (induction atts arbitrary: n i le tr)
  case Nil
  then show ?case by simp
next
  case (Cons a atts)
  let ?P = "\<lambda>t. \<exists>j kw c. completion env j kw = Returns (Content (Some c)) \<and> t = json_text (strip c)"
  obtain temp use_g where a: "a = (temp, use_g)" by (cases a)
  obtain r evs i' where ce: "call_engine env g ce i temp use_g = (r, evs, i')"
    by (cases "call_engine env g ce i temp use_g") auto
  from call_engine_cases[OF ce] have pe: "parsed_texts evs = []"
    and ret: "\<And>x. r = Returns x \<Longrightarrow> \<exists>j kw. completion env j kw = Returns x" by auto
  have tr1: "list_all ?P (parsed_texts (tr @ evs))"
    using Cons.prems(2) pe by (simp add: parsed_texts_append)
  show ?case
  proof (cases "is_set ce n")
    case True
    with Cons.prems a show ?thesis by simp
  next
    case notset: False
    show ?thesis
    proof (cases r)
      case (Raises e)
      show ?thesis
      proof (cases "is_set ce (n + 1)")
        case True
        with Cons.prems(1) a notset ce Raises have "tr' = tr @ evs" by simp
        with tr1 show ?thesis by simp
      next
        case False
        with Cons.prems(1) a notset ce Raises have
          "soft_attempts env g ce S m atts (n + 2) i' (Some (Exception e)) (tr @ evs) = (tr', res)"
          by simp
        from Cons.IH[OF this tr1] show ?thesis .
      qed
    next
      case (Returns x)
      obtain evs2 y where ar: "attempt_result env S m x = (evs2, y)"
        by (cases "attempt_result env S m x") auto
      have "list_all ?P (parsed_texts evs2)"
      proof -
        from attempt_result_parsed[OF ar] consider "parsed_texts evs2 = []"
          | c where "x = Content (Some c)" "parsed_texts evs2 = [json_text (strip c)]" by blast
        then show ?thesis
        proof cases
          case 1
          then show ?thesis by simp
        next
          case 2
          from ret[OF Returns] 2(1) obtain j kw where "completion env j kw = Returns (Content (Some c))"
            by auto
          with 2(2) show ?thesis by auto
        qed
      qed
      with tr1 have tr2: "list_all ?P (parsed_texts (tr @ evs @ evs2))"
        by (simp add: parsed_texts_append)
      show ?thesis
      proof (cases "is_set ce (n + 1)")
        case True
        with Cons.prems(1) a notset ce Returns have "tr' = tr @ evs" by simp
        with tr1 show ?thesis by simp
      next
        case ns1: False
        show ?thesis
        proof (cases y)
          case (Inr r')
          with Cons.prems(1) a notset ce Returns ns1 ar have "tr' = tr @ evs @ evs2" by simp
          with tr2 show ?thesis by simp
        next
          case (Inl e)
          show ?thesis
          proof (cases "is_set ce (n + 2)")
            case True
            with Cons.prems(1) a notset ce Returns ns1 ar Inl have "tr' = tr @ evs @ evs2" by simp
            with tr2 show ?thesis by simp
          next
            case False
            with Cons.prems(1) a notset ce Returns ns1 ar Inl have
              "soft_attempts env g ce S m atts (n + 3) i' (Some e) (tr @ evs @ evs2) = (tr', res)"
              by simp
            from Cons.IH[OF this tr2] show ?thesis .
          qed
        qed
      qed
    qed
  qed
qed

lemma soft_attempts_extends:
  "\<exists>rest. fst (soft_attempts env g ce S m atts n i le tr) = tr @ rest"
proof (induction atts arbitrary: n i le tr)
  case Nil
  then show ?case by simp
next
  case (Cons a atts)
  obtain temp use_g where a: "a = (temp, use_g)" by (cases a)
  obtain r evs i' where ce: "call_engine env g ce i temp use_g = (r, evs, i')"
    by (cases "call_engine env g ce i temp use_g") auto
  show ?case
  proof (cases r)
    case (Raises e)
    from Cons.IH[of "n + 2" i' "Some (Exception e)" "tr @ evs"] obtain rest where
      "fst (soft_attempts env g ce S m atts (n + 2) i' (Some (Exception e)) (tr @ evs)) = tr @ evs @ rest"
      by auto
    then show ?thesis using a ce Raises by auto
  next
    case (Returns x)
    obtain evs2 y where ar: "attempt_result env S m x = (evs2, y)"
      by (cases "attempt_result env S m x") auto
    show ?thesis
    proof (cases y)
      case (Inr r')
      then show ?thesis using a ce Returns ar by auto
    next
      case (Inl e)
      from Cons.IH[of "n + 3" i' "Some e" "tr @ evs @ evs2"] obtain rest where
        "fst (soft_attempts env g ce S m atts (n + 3) i' (Some e) (tr @ evs @ evs2)) = tr @ evs @ evs2 @ rest"
        by auto
      then show ?thesis using a ce Returns ar Inl by auto
    qed
  qed
qed

lemma json_text_span:
  "CHR ''{'' \<notin> set pre \<Longrightarrow> CHR ''}'' \<notin> set post \<Longrightarrow>
     json_text (pre @ ''{'' @ mid @ ''}'' @ post) = ''{'' @ mid @ ''}''"
  by (simp add: json_text_def brace_match_span)

lemma json_text_fallback:
  "\<forall>pre mid post. raw \<noteq> pre @ ''{'' @ mid @ ''}'' @ post \<Longrightarrow> json_text raw = raw"
  by (simp add: json_text_def brace_match_none)

lemma json_text_scenario: \<open>json_text ''Sure! {"x": 3} done.'' = ''{"x": 3}''\<close>
  by (simp add: json_text_def brace_match_def)

lemma run_llm_soft_parsed:
  assumes "run_llm_soft env pt ce p S = (tr, r)"
  shows "list_all (\<lambda>t. \<exists>j kw c. completion env j kw = Returns (Content (Some c)) \<and>
                                  t = json_text (strip c)) (parsed_texts tr)"
proof -
  let ?P = "\<lambda>t. \<exists>j kw c. completion env j kw = Returns (Content (Some c)) \<and> t = json_text (strip c)"
  let ?loading = "if loaded_model env = Some p then [] else [LoadModel p]"
  have l: "list_all ?P (parsed_texts ?loading)" by simp
  show ?thesis
  proof (cases "\<exists>tr0 res. soft_attempts env (grammar_compiles env (gbnf_for_schema S)) ce S (basename p)
                   [(4 / 10, True), (2 / 10, True), (4 / 10, False)] 0 0 None ?loading = (tr0, res)
                   \<and> tr = tr0")
    case True
    then obtain res where "soft_attempts env (grammar_compiles env (gbnf_for_schema S)) ce S (basename p)
                   [(4 / 10, True), (2 / 10, True), (4 / 10, False)] 0 0 None ?loading = (tr, res)" by auto
    from soft_attempts_parsed[OF this l] show ?thesis .
  next
    case False
    with assms have "parsed_texts tr = []"
      unfolding run_llm_soft_def Let_def
      by (auto split: if_splits option.splits prod.splits)
    then show ?thesis by simp
  qed
qed

lemma soft_attempts_first:
  assumes "\<not> is_set ce n" "\<not> is_set ce (n + 1)"
    and "call_engine env g ce i temp use_g = (Returns x, evs, i')"
    and "attempt_result env S m x = (evs2, y)"
  shows "\<exists>rest. fst (soft_attempts env g ce S m ((temp, use_g) # atts) n i le tr) =
           tr @ evs @ evs2 @ rest"
proof (cases y)
  case (Inr res)
  with assms show ?thesis by simp
next
  case (Inl e)
  show ?thesis
  proof (cases "is_set ce (n + 2)")
    case True
    with Inl assms show ?thesis by simp
  next
    case False
    from soft_attempts_extends[of env g ce S m atts "n + 3" i' "Some e" "tr @ evs @ evs2"]
    obtain rest where "fst (soft_attempts env g ce S m atts (n + 3) i' (Some e) (tr @ evs @ evs2))
                         = (tr @ evs @ evs2) @ rest" by blast
    with False Inl assms show ?thesis by simp
  qed
qed

lemma run_llm_soft_first_attempt:
  assumes "path_exists env p" "S \<noteq> []" "import_error env = None"
    "loaded_model env = Some p \<or> load_error env = None" "prompt_error env = None"
    "\<not> is_set ce 0" "\<not> is_set ce 1"
    "completion env 0 \<lparr>temperature = 4 / 10,
        with_grammar = grammar_compiles env (gbnf_for_schema S),
        with_abort = (ce \<noteq> None \<and> supports_abort env)\<rparr> = Returns (Content (Some c))"
    "strip c \<noteq> []"
  shows "\<exists>rest. fst (run_llm_soft env pt ce p S) =
           (if loaded_model env = Some p then [] else [LoadModel p]) @
           [ChatCompletion \<lparr>temperature = 4 / 10,
              with_grammar = grammar_compiles env (gbnf_for_schema S),
              with_abort = (ce \<noteq> None \<and> supports_abort env)\<rparr>,
            JsonLoads (json_text (strip c))] @ rest"
proof -
  define loading where "loading = (if loaded_model env = Some p then [] else [LoadModel p])"
  define kw where "kw = \<lparr>temperature = 4 / 10,
              with_grammar = grammar_compiles env (gbnf_for_schema S),
              with_abort = (ce \<noteq> None \<and> supports_abort env)\<rparr>"
  define g where "g = grammar_compiles env (gbnf_for_schema S)"
  define m where "m = basename p"
  define temp :: real where "temp = 4 / 10"
  define atts :: "(real \<times> bool) list" where "atts = [(2 / 10, True), (4 / 10, False)]"
  have c0: "completion env 0 kw = Returns (Content (Some c))"
    using assms(8) by (simp add: kw_def)
  have ce: "call_engine env g ce 0 temp True = (Returns (Content (Some c)), [ChatCompletion kw], Suc 0)"
    using c0 by (simp add: call_engine_def kw_def g_def temp_def)
  obtain y where ar: "attempt_result env S m (Content (Some c)) = ([JsonLoads (json_text (strip c))], y)"
    using assms(9) by (simp add: attempt_result_def validated_result_def Let_def)
  from soft_attempts_first[OF _ _ ce ar, of 0 atts None loading] assms(6,7)
  obtain rest where first: "fst (soft_attempts env g ce S m ((temp, True) # atts) 0 0 None loading) =
           loading @ [ChatCompletion kw] @ [JsonLoads (json_text (strip c))] @ rest" by auto
  have "run_llm_soft env pt ce p S =
          (case soft_attempts env g ce S m ((temp, True) # atts) 0 0 None loading of
             (trace, res) \<Rightarrow> (trace, Inr res))"
    using assms(1-5) unfolding run_llm_soft_def Let_def loading_def g_def m_def temp_def atts_def
    by auto
  then have "fst (run_llm_soft env pt ce p S) =
          fst (soft_attempts env g ce S m ((temp, True) # atts) 0 0 None loading)"
    by (simp split: prod.splits)
  with first show ?thesis unfolding loading_def kw_def by auto
qed

lemma run_llm_hard_parses:
  assumes "h_path_exists henv p" "S \<noteq> []" "mkdir_error henv = None" "write_error henv = None"
    "spawn_error henv = None" "wait_worker ce (exited henv) 0 = Some False"
    "worker_output henv = Inr (out, err)" "out \<noteq> []" "h_json_loads henv out = Inr (PDict payload)"
    "truthy (dict_get payload ''ok'' PNone)" "map_of payload ''raw'' = Some (PStr rw)"
    "strip rw \<noteq> []"
  shows "\<exists>res. run_llm_hard henv pt ce p S =
           Some ([WriteWorkerScript, MakeTmpDir, WriteArgsFile, SpawnWorker, ReadWorkerOutput,
                  JsonLoads out, JsonLoads (json_text (strip rw)), RemoveArgsFile], Inr res)"
proof -
  from assms(12) have "rw \<noteq> []" by (auto simp: strip_Nil)
  with assms(11,12) have pr: "payload_raw payload = Inr (strip rw)"
    by (simp add: payload_raw_def dict_get_def)
  obtain y where vr: "validated_result (h_json_loads henv) S (basename p) (strip rw)
                        = ([JsonLoads (json_text (strip rw))], y)"
    by (simp add: validated_result_def)
  have "\<exists>res. worker_result henv S (basename p) =
           ([JsonLoads out, JsonLoads (json_text (strip rw))], res)"
    using assms(7-10,12) pr vr by (cases y) (simp_all add: worker_result_def)
  then obtain res where "worker_result henv S (basename p) =
           ([JsonLoads out, JsonLoads (json_text (strip rw))], res)" by blast
  with assms(1-6) show ?thesis by (simp add: run_llm_hard_def)
qed

text \<open>
  Claim C7, amended. The text that either entry point hands to the parser for a model
  response runs from the first opening brace of the stripped response to its last closing
  brace; when no closing brace follows the first opening brace, it is the stripped response
  itself. For \<open>Sure! {"x": 3} done.\<close> it is \<open>{"x": 3}\<close>. In the cooperative call every
  text handed to the parser is this text of a response that the completion returned, and
  the first attempt hands over the text of its response. In the isolated call the parser
  gets the worker's line and then this text of the response that the line carries.
\<close>

theorem parser_gets_first_to_last_brace:
  \<open>(CHR ''{'' \<notin> set pre \<and> CHR ''}'' \<notin> set post \<longrightarrow>
      json_text (pre @ ''{'' @ mid @ ''}'' @ post) = ''{'' @ mid @ ''}'') \<and>
   ((\<forall>pre mid post. raw \<noteq> pre @ ''{'' @ mid @ ''}'' @ post) \<longrightarrow> json_text raw = raw) \<and>
   json_text ''Sure! {"x": 3} done.'' = ''{"x": 3}'' \<and>
   (run_llm_soft env pt ce p S = (tr, r) \<longrightarrow>
      list_all (\<lambda>t. \<exists>j kw c. completion env j kw = Returns (Content (Some c)) \<and>
                               t = json_text (strip c)) (parsed_texts tr)) \<and>
   (path_exists env p \<and> S \<noteq> [] \<and> import_error env = None \<and>
    (loaded_model env = Some p \<or> load_error env = None) \<and> prompt_error env = None \<and>
    \<not> is_set ce 0 \<and> \<not> is_set ce 1 \<and>
    completion env 0 \<lparr>temperature = 4 / 10,
        with_grammar = grammar_compiles env (gbnf_for_schema S),
        with_abort = (ce \<noteq> None \<and> supports_abort env)\<rparr> = Returns (Content (Some c)) \<and>
    strip c \<noteq> [] \<longrightarrow>
      (\<exists>rest. fst (run_llm_soft env pt ce p S) =
           (if loaded_model env = Some p then [] else [LoadModel p]) @
           [ChatCompletion \<lparr>temperature = 4 / 10,
              with_grammar = grammar_compiles env (gbnf_for_schema S),
              with_abort = (ce \<noteq> None \<and> supports_abort env)\<rparr>,
            JsonLoads (json_text (strip c))] @ rest)) \<and>
   (h_path_exists henv p \<and> S \<noteq> [] \<and> mkdir_error henv = None \<and> write_error henv = None \<and>
    spawn_error henv = None \<and> wait_worker ce (exited henv) 0 = Some False \<and>
    worker_output henv = Inr (out, err) \<and> out \<noteq> [] \<and>
    h_json_loads henv out = Inr (PDict payload) \<and> truthy (dict_get payload ''ok'' PNone) \<and>
    map_of payload ''raw'' = Some (PStr rw) \<and> strip rw \<noteq> [] \<longrightarrow>
      (\<exists>res. run_llm_hard henv pt ce p S =
           Some ([WriteWorkerScript, MakeTmpDir, WriteArgsFile, SpawnWorker, ReadWorkerOutput,
                  JsonLoads out, JsonLoads (json_text (strip rw)), RemoveArgsFile], Inr res)))\<close>
proof (intro conjI impI)
  assume "CHR ''{'' \<notin> set pre \<and> CHR ''}'' \<notin> set post"
  then show "json_text (pre @ ''{'' @ mid @ ''}'' @ post) = ''{'' @ mid @ ''}''"
    by (elim conjE) (rule json_text_span; assumption)
next
  assume "\<forall>pre mid post. raw \<noteq> pre @ ''{'' @ mid @ ''}'' @ post"
  then show "json_text raw = raw" by (rule json_text_fallback)
next
  show \<open>json_text ''Sure! {"x": 3} done.'' = ''{"x": 3}''\<close> by (rule json_text_scenario)
next
  assume "run_llm_soft env pt ce p S = (tr, r)"
  then show "list_all (\<lambda>t. \<exists>j kw c. completion env j kw = Returns (Content (Some c)) \<and>
                               t = json_text (strip c)) (parsed_texts tr)"
    by (rule run_llm_soft_parsed)
next
  assume "path_exists env p \<and> S \<noteq> [] \<and> import_error env = None \<and>
    (loaded_model env = Some p \<or> load_error env = None) \<and> prompt_error env = None \<and>
    \<not> is_set ce 0 \<and> \<not> is_set ce 1 \<and>
    completion env 0 \<lparr>temperature = 4 / 10,
        with_grammar = grammar_compiles env (gbnf_for_schema S),
        with_abort = (ce \<noteq> None \<and> supports_abort env)\<rparr> = Returns (Content (Some c)) \<and>
    strip c \<noteq> []"
  then show "\<exists>rest. fst (run_llm_soft env pt ce p S) =
           (if loaded_model env = Some p then [] else [LoadModel p]) @
           [ChatCompletion \<lparr>temperature = 4 / 10,
              with_grammar = grammar_compiles env (gbnf_for_schema S),
              with_abort = (ce \<noteq> None \<and> supports_abort env)\<rparr>,
            JsonLoads (json_text (strip c))] @ rest"
    by (elim conjE) (rule run_llm_soft_first_attempt; assumption)
next
  assume "h_path_exists henv p \<and> S \<noteq> [] \<and> mkdir_error henv = None \<and> write_error henv = None \<and>
    spawn_error henv = None \<and> wait_worker ce (exited henv) 0 = Some False \<and>
    worker_output henv = Inr (out, err) \<and> out \<noteq> [] \<and>
    h_json_loads henv out = Inr (PDict payload) \<and> truthy (dict_get payload ''ok'' PNone) \<and>
    map_of payload ''raw'' = Some (PStr rw) \<and> strip rw \<noteq> []"
  then show "\<exists>res. run_llm_hard henv pt ce p S =
           Some ([WriteWorkerScript, MakeTmpDir, WriteArgsFile, SpawnWorker, ReadWorkerOutput,
                  JsonLoads out, JsonLoads (json_text (strip rw)), RemoveArgsFile], Inr res)"
    by (elim conjE) (rule run_llm_hard_parses; assumption)
qed

lemma strip_scenario: \<open>strip ''Sure! {"x": 3} done.'' = ''Sure! {"x": 3} done.''\<close>
  by (simp add: strip_def strip_with_def is_space_def)

lemma run_llm_hard_scenario:
  \<open>run_llm_hard henv_done ''a tall pine'' never_set ''/models/m.gguf'' schema_x =
     Some ([WriteWorkerScript, MakeTmpDir, WriteArgsFile, SpawnWorker, ReadWorkerOutput,
            JsonLoads worker_line, JsonLoads ''{"x": 3}'', RemoveArgsFile],
      Inr \<lparr>res_ok = True, res_params = Some [(''x'', PFloat (Fin 3))],
           res_confidence = Fin (2 / (6 + eps)), res_raw = Some ''Sure! {"x": 3} done.'',
           res_clipped = None, res_violations = None, res_model = ''m.gguf''\<rparr>)\<close>
proof -
  have w: "wait_worker never_set (\<lambda>n. True) 0 = Some False"
    by (rule wait_worker_exited) (simp_all add: never_set_def is_set_def)
  have v: "validate_and_clip [(''x'', PInt 3)] schema_x = Inr ([(''x'', PFloat (Fin 3))], [], [])"
    by (simp add: eval_defs schema_x_def)
  have b: "basename ''/models/m.gguf'' = ''m.gguf''" by (simp add: basename_def)
  have ne: "schema_x \<noteq> []" by (simp add: schema_x_def)
  have wl: "worker_line \<noteq> []" by (simp add: worker_line_def)
  have lx: \<open>loads_worker ''{"x": 3}'' = Inr (PDict [(''x'', PInt 3)])\<close>
    by (simp add: loads_worker_def loads_x3_def worker_line_def)
  have lw: \<open>loads_worker worker_line = Inr (PDict [(''ok'', PBool True),
               (''raw'', PStr ''Sure! {"x": 3} done.''), (''elapsed'', PFloat (Fin (3 / 2)))])\<close>
    by (simp add: loads_worker_def)
  show ?thesis
    by (simp add: run_llm_hard_def henv_done_def henv_idle_def w b ne wl lw lx worker_result_def
          payload_raw_def dict_get_def validated_result_def strip_scenario json_text_scenario
          v confidence_x3)
qed

lemma brace_match_decomp2:
  "brace_match raw = None \<Longrightarrow> \<forall>pre mid post. raw \<noteq> pre @ ''{'' @ mid @ ''}'' @ post"
proof (intro allI notI)
  fix pre mid post
  assume n: "brace_match raw = None" and "raw = pre @ ''{'' @ mid @ ''}'' @ post"
  then have "raw = pre @ CHR ''{'' # mid @ CHR ''}'' # post" by simp
  from brace_match_decomp[OF this] n show False by simp
qed

theorem parser_gets_first_to_last_brace_witness:
  \<open>CHR ''{'' \<notin> set ''Sure! '' \<and> CHR ''}'' \<notin> set '' done.'' \<and>
   json_text (''Sure! '' @ ''{'' @ ''"x": 3'' @ ''}'' @ '' done.'') = ''{'' @ ''"x": 3'' @ ''}'' \<and>
   brace_match ''a } b { c'' = None \<and>
   json_text ''a } b { c'' = ''a } b { c'' \<and>
   path_exists env_cold ''/models/m.gguf'' \<and> schema_x \<noteq> [] \<and> import_error env_cold = None \<and>
   load_error env_cold = None \<and> prompt_error env_cold = None \<and>
   \<not> is_set never_set 0 \<and> \<not> is_set never_set 1 \<and>
   completion env_cold 0 \<lparr>temperature = 4 / 10,
        with_grammar = grammar_compiles env_cold (gbnf_for_schema schema_x),
        with_abort = (never_set \<noteq> None \<and> supports_abort env_cold)\<rparr>
     = Returns (Content (Some ''Sure! {"x": 3} done.'')) \<and>
   strip ''Sure! {"x": 3} done.'' = ''Sure! {"x": 3} done.'' \<and>
   list_all (\<lambda>t. \<exists>j kw c. completion env_cold j kw = Returns (Content (Some c)) \<and>
                            t = json_text (strip c))
     (parsed_texts (fst (run_llm_soft env_cold ''a tall pine'' never_set ''/models/m.gguf'' schema_x))) \<and>
   (\<exists>rest. fst (run_llm_soft env_cold ''a tall pine'' never_set ''/models/m.gguf'' schema_x) =
      [LoadModel ''/models/m.gguf'',
       ChatCompletion \<lparr>temperature = 4 / 10, with_grammar = True, with_abort = True\<rparr>,
       JsonLoads ''{"x": 3}''] @ rest) \<and>
   h_path_exists henv_done ''/models/m.gguf'' \<and> mkdir_error henv_done = None \<and>
   write_error henv_done = None \<and> spawn_error henv_done = None \<and>
   wait_worker never_set (exited henv_done) 0 = Some False \<and>
   worker_output henv_done = Inr (worker_line, []) \<and> worker_line \<noteq> [] \<and>
   h_json_loads henv_done worker_line =
     Inr (PDict [(''ok'', PBool True), (''raw'', PStr ''Sure! {"x": 3} done.''),
                 (''elapsed'', PFloat (Fin (3 / 2)))]) \<and>
   (\<exists>res. run_llm_hard henv_done ''a tall pine'' never_set ''/models/m.gguf'' schema_x =
      Some ([WriteWorkerScript, MakeTmpDir, WriteArgsFile, SpawnWorker, ReadWorkerOutput,
             JsonLoads worker_line, JsonLoads ''{"x": 3}'', RemoveArgsFile], Inr res))\<close>
proof -
  let ?c = \<open>''Sure! {"x": 3} done.''\<close>
  let ?payload = "[(''ok'', PBool True), (''raw'', PStr ?c), (''elapsed'', PFloat (Fin (3 / 2)))]"
  let ?run = "run_llm_soft env_cold ''a tall pine'' never_set ''/models/m.gguf'' schema_x"
  have h1: "CHR ''{'' \<notin> set ''Sure! '' \<and> CHR ''}'' \<notin> set '' done.''" by simp
  have n: "brace_match ''a } b { c'' = None" by (simp add: brace_match_def)
  have h2: "\<forall>pre mid post. ''a } b { c'' \<noteq> pre @ ''{'' @ mid @ ''}'' @ post"
    using n by (rule brace_match_decomp2)
  have s: "strip ?c = ?c" by (rule strip_scenario)
  have j: \<open>json_text ?c = ''{"x": 3}''\<close> by (rule json_text_scenario)
  have hs: "path_exists env_cold ''/models/m.gguf''" "schema_x \<noteq> []" "import_error env_cold = None"
    "load_error env_cold = None" "prompt_error env_cold = None"
    "\<not> is_set never_set 0" "\<not> is_set never_set 1" "loaded_model env_cold = None"
    "grammar_compiles env_cold (gbnf_for_schema schema_x)" "supports_abort env_cold"
    "never_set \<noteq> None"
    by (simp_all add: env_cold_def schema_x_def never_set_def is_set_def)
  have c0: "completion env_cold 0 \<lparr>temperature = 4 / 10,
        with_grammar = grammar_compiles env_cold (gbnf_for_schema schema_x),
        with_abort = (never_set \<noteq> None \<and> supports_abort env_cold)\<rparr> = Returns (Content (Some ?c))"
    by (simp add: env_cold_def)
  have sc: "strip ?c \<noteq> []" unfolding s by simp
  have w: "wait_worker never_set (exited henv_done) 0 = Some False"
    by (rule wait_worker_exited) (simp_all add: never_set_def is_set_def henv_done_def)
  have hh: "h_path_exists henv_done ''/models/m.gguf''" "mkdir_error henv_done = None"
    "write_error henv_done = None" "spawn_error henv_done = None"
    "worker_output henv_done = Inr (worker_line, [])" "worker_line \<noteq> []"
    "h_json_loads henv_done worker_line = Inr (PDict ?payload)"
    "truthy (dict_get ?payload ''ok'' PNone)" "map_of ?payload ''raw'' = Some (PStr ?c)"
    by (simp_all add: henv_done_def henv_idle_def worker_line_def loads_worker_def dict_get_def)
  obtain tr r where run: "?run = (tr, r)" by (cases ?run) auto
  note inst = parser_gets_first_to_last_brace
      [of "''Sure! ''" "'' done.''" \<open>''"x": 3''\<close> "''a } b { c''" env_cold "''a tall pine''"
          never_set "''/models/m.gguf''" schema_x tr r "?c" henv_done worker_line "[]" "?payload" "?c"]
  from inst h1 have c1: \<open>json_text (''Sure! '' @ ''{'' @ ''"x": 3'' @ ''}'' @ '' done.'') = ''{'' @ ''"x": 3'' @ ''}''\<close>
    by blast
  from inst h2 have c2: "json_text ''a } b { c'' = ''a } b { c''" by blast
  from inst run have c4: "list_all (\<lambda>t. \<exists>j kw c. completion env_cold j kw = Returns (Content (Some c)) \<and>
                            t = json_text (strip c)) (parsed_texts (fst ?run))"
    by simp
  from inst hs c0 sc have "\<exists>rest. fst ?run =
           (if loaded_model env_cold = Some ''/models/m.gguf'' then [] else [LoadModel ''/models/m.gguf'']) @
           [ChatCompletion \<lparr>temperature = 4 / 10,
              with_grammar = grammar_compiles env_cold (gbnf_for_schema schema_x),
              with_abort = (never_set \<noteq> None \<and> supports_abort env_cold)\<rparr>,
            JsonLoads (json_text (strip ?c))] @ rest"
    by blast
  then have c5: \<open>\<exists>rest. fst ?run =
      [LoadModel ''/models/m.gguf'',
       ChatCompletion \<lparr>temperature = 4 / 10, with_grammar = True, with_abort = True\<rparr>,
       JsonLoads ''{"x": 3}''] @ rest\<close>
    unfolding s j using hs(8,9,10,11) by simp
  from inst hs(2) hh w sc have "\<exists>res. run_llm_hard henv_done ''a tall pine'' never_set ''/models/m.gguf'' schema_x =
           Some ([WriteWorkerScript, MakeTmpDir, WriteArgsFile, SpawnWorker, ReadWorkerOutput,
                  JsonLoads worker_line, JsonLoads (json_text (strip ?c)), RemoveArgsFile], Inr res)"
    by blast
  then have c6: \<open>\<exists>res. run_llm_hard henv_done ''a tall pine'' never_set ''/models/m.gguf'' schema_x =
      Some ([WriteWorkerScript, MakeTmpDir, WriteArgsFile, SpawnWorker, ReadWorkerOutput,
             JsonLoads worker_line, JsonLoads ''{"x": 3}'', RemoveArgsFile], Inr res)\<close>
    unfolding s j .
  from h1 c1 n c2 hs(1-7) c0 s c4 c5 hh(1-7) w c6 show ?thesis by (intro conjI) simp_all
qed

text \<open>
  Claim C7 as stated fails: the pattern does not balance braces. When the completion
  returns two objects in a row, each of the three attempts hands the whole response to the
  parser, which rejects it, and the call fails; the first balanced span is the first
  object, which the parser accepts.
\<close>

theorem parser_gets_both_objects:
  \<open>run_llm_soft env_two ''a tall pine'' never_set ''/models/m.gguf'' schema_x =
     ([LoadModel ''/models/m.gguf'',
       ChatCompletion \<lparr>temperature = 4 / 10, with_grammar = True, with_abort = True\<rparr>,
       JsonLoads ''{"x": 3} {"y": 4}'',
       ChatCompletion \<lparr>temperature = 2 / 10, with_grammar = True, with_abort = True\<rparr>,
       JsonLoads ''{"x": 3} {"y": 4}'',
       ChatCompletion \<lparr>temperature = 4 / 10, with_grammar = False, with_abort = True\<rparr>,
       JsonLoads ''{"x": 3} {"y": 4}''],
      Inr (failed [(''error'', Exception \<lparr>ename = ''JSONDecodeError'',
                                          emsg = ''Extra data: line 1 column 10 (char 9)''\<rparr>)]
             ''m.gguf'')) \<and>
   spec_json_text (strip ''{"x": 3} {"y": 4}'') = ''{"x": 3}'' \<and>
   json_loads env_two ''{"x": 3}'' = Inr (PDict [(''x'', PInt 3)])\<close>
proof -
  have s: \<open>strip ''{"x": 3} {"y": 4}'' = ''{"x": 3} {"y": 4}''\<close>
    by (simp add: strip_def strip_with_def is_space_def)
  have j: \<open>json_text ''{"x": 3} {"y": 4}'' = ''{"x": 3} {"y": 4}''\<close>
    by (simp add: json_text_def brace_match_def)
  have b: "basename ''/models/m.gguf'' = ''m.gguf''" by (simp add: basename_def)
  have ne: "schema_x \<noteq> []" by (simp add: schema_x_def)
  have l: \<open>loads_two ''{"x": 3} {"y": 4}'' = Inl \<lparr>ename = ''JSONDecodeError'',
                           emsg = ''Extra data: line 1 column 10 (char 9)''\<rparr>\<close>
    by (simp add: loads_two_def)
  have sp: \<open>spec_json_text ''{"x": 3} {"y": 4}'' = ''{"x": 3}''\<close>
    by (simp add: spec_json_text_def)
  show ?thesis
    by (simp add: run_llm_soft_def env_two_def env_cold_def never_set_def is_set_def
          call_engine_def attempt_result_def validated_result_def two_objects_def s j b ne l sp)
       (simp add: loads_two_def)
qed

end
